theory Spec2Isabelle
  imports Main "HOL-Library.AList" "HOL-Library.Multiset"
begin

section \<open>Python values and string operations used by the pipeline\<close>

text \<open>
  The pipeline handles text produced by an external tool and JSON values decoded from it.
  A string is a list of characters (code points below 256). A decoded JSON value is one
  of Python's \<^verbatim>\<open>None\<close>, \<^verbatim>\<open>bool\<close>, \<^verbatim>\<open>int\<close>,
  \<^verbatim>\<open>float\<close>, \<^verbatim>\<open>str\<close>, \<^verbatim>\<open>list\<close> and
  \<^verbatim>\<open>dict\<close>. Floats are never computed with here, only passed on, tested for
  truth and printed, so their carrier is the type parameter \<open>'f\<close>. A dictionary is an
  association list in insertion order; \<open>AList.update\<close> is Python's item assignment
  (an existing key keeps its place, a new key goes to the end).
\<close>

datatype 'f pyval =
    PNone
  | PBool bool
  | PInt int
  | PFloat 'f
  | PStr string
  | PList "'f pyval list"
  | PDict "(string \<times> 'f pyval) list"

type_synonym 'f pydict = "(string \<times> 'f pyval) list"

datatype exn =
    TimeoutExpired
  | CalledProcessError string
  | OSError
  | JSONDecodeError
  | RuntimeError string
  | IndexError
  | KeyError string
  | ValueError string
  | ClientError
  | BotoError
  | UnicodeDecodeError
  | InvalidRegionError
  | PlainException string

text \<open>\<^verbatim>\<open>sub in s\<close> on strings: \<open>sub\<close> occurs in \<open>s\<close> as a contiguous block.\<close>

fun starts_with :: "string \<Rightarrow> string \<Rightarrow> bool" where
  "starts_with s [] = True"
| "starts_with [] (p # ps) = False"
| "starts_with (c # cs) (p # ps) = (c = p \<and> starts_with cs ps)"

fun py_in :: "string \<Rightarrow> string \<Rightarrow> bool" where
  "py_in sub [] = (sub = [])"
| "py_in sub (c # cs) = (starts_with (c # cs) sub \<or> py_in sub cs)"

text \<open>
  \<^verbatim>\<open>s.split(sep)\<close> for a non-empty separator: the pieces between the
  non-overlapping occurrences of \<open>sep\<close>, found from the left. The second argument
  holds the current piece, reversed. (Python raises on an empty separator; the pipeline
  only splits at the three fixed separators below.)
\<close>

function py_split_from :: "string \<Rightarrow> string \<Rightarrow> string \<Rightarrow> string list" where
  "py_split_from sep cur [] = [rev cur]"
| "py_split_from sep cur (c # cs) =
     (if sep \<noteq> [] \<and> starts_with (c # cs) sep
      then rev cur # py_split_from sep [] (drop (length sep) (c # cs))
      else py_split_from sep (c # cur) cs)"
  by pat_completeness auto
termination
  by (relation "measure (\<lambda>(sep, cur, s). length s)") auto

definition py_split :: "string \<Rightarrow> string \<Rightarrow> string list" where
  "py_split s sep = py_split_from sep [] s"

text \<open>
  \<^verbatim>\<open>s.splitlines()\<close>: the line boundaries are LF, VT, FF, CR, FS, GS, RS, NEL and
  the pair CR LF; a final boundary does not open an empty last line.
\<close>

definition is_linebreak :: "char \<Rightarrow> bool" where
  "is_linebreak c = (c \<in> set [CHR 0x0A, CHR 0x0B, CHR 0x0C, CHR 0x0D, CHR 0x1C, CHR 0x1D,
     CHR 0x1E, CHR 0x85])"

fun splitlines_from :: "string \<Rightarrow> string \<Rightarrow> string list" where
  "splitlines_from cur [] = (if cur = [] then [] else [rev cur])"
| "splitlines_from cur (c # cs) =
     (if c = CHR 0x0D then
        (case cs of
           d # ds \<Rightarrow> if d = CHR 0x0A then rev cur # splitlines_from [] ds
                     else rev cur # splitlines_from [] cs
         | [] \<Rightarrow> rev cur # splitlines_from [] cs)
      else if is_linebreak c then rev cur # splitlines_from [] cs
      else splitlines_from (c # cur) cs)"

definition splitlines :: "string \<Rightarrow> string list" where
  "splitlines s = splitlines_from [] s"

text \<open>
  \<^verbatim>\<open>s.strip()\<close> removes white space at both ends, \<^verbatim>\<open>s.strip(chars)\<close>
  the characters of \<open>chars\<close>.
\<close>

definition is_space :: "char \<Rightarrow> bool" where
  "is_space c = (c \<in> set [CHR 0x09, CHR 0x0A, CHR 0x0B, CHR 0x0C, CHR 0x0D, CHR 0x1C,
     CHR 0x1D, CHR 0x1E, CHR 0x1F, CHR 0x20, CHR 0x85, CHR 0xA0])"

definition strip_where :: "(char \<Rightarrow> bool) \<Rightarrow> string \<Rightarrow> string" where
  "strip_where P s = rev (dropWhile P (rev (dropWhile P s)))"

definition strip :: "string \<Rightarrow> string" where
  "strip s = strip_where is_space s"

definition strip_chars :: "string \<Rightarrow> string \<Rightarrow> string" where
  "strip_chars s chars = strip_where (\<lambda>c. c \<in> set chars) s"

text \<open>Indexing a list at 0 or 1 raises \<^verbatim>\<open>IndexError\<close> when the list is too short.\<close>

fun index0 :: "'a list \<Rightarrow> exn + 'a" where
  "index0 [] = Inl IndexError"
| "index0 (x # xs) = Inr x"

fun index1 :: "'a list \<Rightarrow> exn + 'a" where
  "index1 (x # y # xs) = Inr y"
| "index1 xs = Inl IndexError"

text \<open>\<^verbatim>\<open>str(n)\<close> for an integer: its decimal digits, with a minus sign if negative.\<close>

function str_nat :: "nat \<Rightarrow> string" where
  "str_nat n =
     (if n < 10 then [''0123456789'' ! n]
      else str_nat (n div 10) @ [''0123456789'' ! (n mod 10)])"
  by pat_completeness auto
termination
  by (relation "measure (\<lambda>n. n)") auto

declare str_nat.simps [simp del]

definition str_int :: "int \<Rightarrow> string" where
  "str_int i = (if i < 0 then CHR ''-'' # str_nat (nat (- i)) else str_nat (nat i))"

text \<open>
  What the Python runtime contributes and the repository does not define: the printed
  form of floats, lists and dictionaries (\<open>repr_of\<close>, which can raise, for instance on
  a list that holds an integer beyond the digit limit), whether a float is non-zero, and
  the limit on the number of digits of an integer that may be converted to text
  (\<^verbatim>\<open>sys.get_int_max_str_digits()\<close>, 4300 unless reconfigured, 0 for no limit).
\<close>

record 'f runtime =
  repr_of :: "'f pyval \<Rightarrow> exn + string"
  float_nonzero :: "'f \<Rightarrow> bool"
  int_max_str_digits :: nat

definition int_str_error :: "nat \<Rightarrow> exn" where
  "int_str_error limit =
     ValueError (''Exceeds the limit ('' @ str_nat limit
       @ '' digits) for integer string conversion; use sys.set_int_max_str_digits() to increase the limit'')"

text \<open>
  \<^verbatim>\<open>str(v)\<close>, which is also how an f-string renders \<open>v\<close>. It raises
  \<^verbatim>\<open>ValueError\<close> on an integer with more digits than the limit.
\<close>

fun py_str :: "'f runtime \<Rightarrow> 'f pyval \<Rightarrow> exn + string" where
  "py_str r (PStr s) = Inr s"
| "py_str r PNone = Inr ''None''"
| "py_str r (PBool b) = Inr (if b then ''True'' else ''False'')"
| "py_str r (PInt i) =
     (if int_max_str_digits r \<noteq> 0 \<and> int_max_str_digits r < length (str_nat (nat \<bar>i\<bar>))
      then Inl (int_str_error (int_max_str_digits r))
      else Inr (str_int i))"
| "py_str r v = repr_of r v"

definition str_ok :: "'f runtime \<Rightarrow> 'f pyval \<Rightarrow> bool" where
  "str_ok r v = (case py_str r v of Inl e \<Rightarrow> False | Inr t \<Rightarrow> True)"

definition str_of :: "'f runtime \<Rightarrow> 'f pyval \<Rightarrow> string" where
  "str_of r v = (case py_str r v of Inl e \<Rightarrow> [] | Inr t \<Rightarrow> t)"

text \<open>Truth value of a Python object, as tested by \<^verbatim>\<open>if v\<close> and \<^verbatim>\<open>and\<close>.\<close>

fun truthy :: "'f runtime \<Rightarrow> 'f pyval \<Rightarrow> bool" where
  "truthy rt PNone = False"
| "truthy rt (PBool b) = b"
| "truthy rt (PInt i) = (i \<noteq> 0)"
| "truthy rt (PFloat x) = float_nonzero rt x"
| "truthy rt (PStr s) = (s \<noteq> [])"
| "truthy rt (PList xs) = (xs \<noteq> [])"
| "truthy rt (PDict d) = (d \<noteq> [])"

section \<open>The outside world: file system, subprocesses, stores\<close>

text \<open>
  The code talks to a file system, to external commands, to an object store and to a
  key-value table. The file system, the table and a log of every external call are the
  state that the model passes along; how the outside answers is a record of functions.
\<close>

datatype fkind = File | Directory

type_synonym fs = "string \<Rightarrow> fkind option"

datatype attr = S string | N string

type_synonym item = "(string \<times> attr) list"

datatype call =
    Spawn "string list"
  | PutItem string item
  | UploadFile string string string
  | Remove string

record state =
  files :: fs
  table :: "(string \<times> item) list"
  calls :: "call list"

text \<open>
  A command that can be started runs for \<open>run_time\<close> seconds, may change the file
  system (\<open>writes\<close>: what it has done by the time control is back in the caller), and
  leaves an exit code and the bytes of its two output streams. A command whose binary
  cannot be started makes \<^verbatim>\<open>subprocess.run\<close> raise an \<^verbatim>\<open>OSError\<close>.
\<close>

record proc =
  run_time :: nat
  returncode :: int
  stdout :: string
  stderr :: string
  writes :: "fs \<Rightarrow> fs"

datatype launch = Launched proc | NotLaunched

datatype put_outcome = PutOk | PutClientError | PutOtherError

text \<open>
  The decoded output of \<^verbatim>\<open>gdalinfo -json\<close>, as far as the code reads it: the
  entry \<^verbatim>\<open>metadata\<close>, if there is one, maps a domain name to a dictionary of
  fields.
\<close>

type_synonym 'f gdal_json = "(string \<times> 'f pydict) list option"

text \<open>
  Apart from the tools and the stores, the world fixes the codec with which text-mode
  pipes decode bytes (\<open>decode\<close>: \<open>None\<close> when the bytes are not valid in the encoding)
  and the check that \<^verbatim>\<open>boto3.client\<close> makes of a region name
  (\<open>region_name_ok\<close>).
\<close>

record 'f world =
  environ :: "string \<Rightarrow> string option"
  spawn :: "string list \<Rightarrow> launch"
  decode :: "string \<Rightarrow> string option"
  region_name_ok :: "string \<Rightarrow> bool"
  json_loads :: "string \<Rightarrow> 'f gdal_json option"
  rt :: "'f runtime"
  put_item :: "string \<Rightarrow> item \<Rightarrow> put_outcome"
  s3_accepts :: "string \<Rightarrow> string \<Rightarrow> bool"
  as_completed :: "(string \<times> string) list \<Rightarrow> (string \<times> string) list"

record completed =
  cp_returncode :: int
  cp_stdout :: string
  cp_stderr :: string

text \<open>
  In text mode the bytes of a stream are decoded and the line ends CR LF and CR are
  turned into LF.
\<close>

fun translate_newlines :: "string \<Rightarrow> string" where
  "translate_newlines [] = []"
| "translate_newlines (c # cs) =
     (if c = CHR 0x0D then
        (case cs of
           d # ds \<Rightarrow> if d = CHR 0x0A then CHR 0x0A # translate_newlines ds
                     else CHR 0x0A # translate_newlines cs
         | [] \<Rightarrow> [CHR 0x0A])
      else c # translate_newlines cs)"

definition text_of :: "'f world \<Rightarrow> string \<Rightarrow> string option" where
  "text_of w bytes = map_option translate_newlines (decode w bytes)"

text \<open>
  \<^verbatim>\<open>subprocess.run(cmd, check=True, capture_output=True, text=True, timeout=t)\<close>:
  a child that runs longer than the timeout is killed and \<^verbatim>\<open>TimeoutExpired\<close> is
  raised, before anything is decoded. Otherwise both streams are decoded, standard
  output first, and bytes that are not valid text raise \<^verbatim>\<open>UnicodeDecodeError\<close>;
  then a non-zero exit raises \<^verbatim>\<open>CalledProcessError\<close>, which carries the error
  stream. Without a timeout the call waits for the child.
\<close>

definition subprocess_run ::
  "'f world \<Rightarrow> launch \<Rightarrow> nat option \<Rightarrow> fs \<Rightarrow> (exn + completed) \<times> fs" where
  "subprocess_run w l timeout f =
     (case l of
        NotLaunched \<Rightarrow> (Inl OSError, f)
      | Launched p \<Rightarrow>
          (if (case timeout of None \<Rightarrow> False | Some t \<Rightarrow> t < run_time p)
           then (Inl TimeoutExpired, writes p f)
           else (case text_of w (stdout p) of
                   None \<Rightarrow> (Inl UnicodeDecodeError, writes p f)
                 | Some out \<Rightarrow>
                     (case text_of w (stderr p) of
                        None \<Rightarrow> (Inl UnicodeDecodeError, writes p f)
                      | Some err \<Rightarrow>
                          (if returncode p \<noteq> 0
                           then (Inl (CalledProcessError err), writes p f)
                           else (Inr \<lparr>cp_returncode = returncode p, cp_stdout = out,
                                      cp_stderr = err\<rparr>, writes p f))))))"

definition exists :: "state \<Rightarrow> string \<Rightarrow> bool" where
  "exists s path = (files s path \<noteq> None)"

definition environ_get :: "'f world \<Rightarrow> string \<Rightarrow> string \<Rightarrow> string" where
  "environ_get w k d = (case environ w k of None \<Rightarrow> d | Some v \<Rightarrow> v)"

section \<open>INSAT3DProcessor\<close>

record processor =
  input_path :: string
  output_bucket :: string
  max_workers :: int
  filename :: string
  region :: string

subsection \<open>\<^verbatim>\<open>_run_command\<close>\<close>

text \<open>
  The two handlers of \<^verbatim>\<open>_run_command\<close> catch \<^verbatim>\<open>TimeoutExpired\<close> and
  \<^verbatim>\<open>CalledProcessError\<close>; any other exception of \<^verbatim>\<open>subprocess.run\<close>
  leaves the function.
\<close>

fun run_command_result :: "exn + completed \<Rightarrow> exn + bool \<times> string" where
  "run_command_result (Inr result) = Inr (True, cp_stdout result)"
| "run_command_result (Inl TimeoutExpired) = Inr (False, ''Timeout'')"
| "run_command_result (Inl (CalledProcessError e)) = Inr (False, e)"
| "run_command_result (Inl e) = Inl e"

definition run_command ::
  "'f world \<Rightarrow> string list \<Rightarrow> nat \<Rightarrow> state \<Rightarrow> (exn + bool \<times> string) \<times> state" where
  "run_command w command timeout s =
     (let (r, f) = subprocess_run w (spawn w command) (Some timeout) (files s)
      in (run_command_result r, s\<lparr>files := f, calls := calls s @ [Spawn command]\<rparr>))"

subsection \<open>\<^verbatim>\<open>_get_subdatasets\<close>\<close>

definition is_subdataset_line :: "string \<Rightarrow> bool" where
  "is_subdataset_line line =
     (py_in ''SUBDATASET'' line \<and> py_in ''NAME'' line \<and> py_in ''://IMG_'' line)"

text \<open>
  The body of the loop over the lines of the tool's output. Each of the two
  \<^verbatim>\<open>[1]\<close> raises \<^verbatim>\<open>IndexError\<close> when the split found no separator.
\<close>

definition parse_line ::
  "string \<Rightarrow> (string \<times> string) list \<Rightarrow> exn + (string \<times> string) list" where
  "parse_line line subdatasets =
     (if is_subdataset_line line then
        (case index1 (py_split line ''='') of
           Inl e \<Rightarrow> Inl e
         | Inr field \<Rightarrow>
             (let path = strip field
              in (case index1 (py_split path ''://IMG_'') of
                    Inl e \<Rightarrow> Inl e
                  | Inr rest \<Rightarrow>
                      (case index0 (py_split rest [CHR 0x22]) of
                         Inl e \<Rightarrow> Inl e
                       | Inr band_name \<Rightarrow>
                           Inr (AList.update band_name (strip_chars path [CHR 0x22])
                                  subdatasets)))))
      else Inr subdatasets)"

fun parse_lines ::
  "string list \<Rightarrow> (string \<times> string) list \<Rightarrow> exn + (string \<times> string) list" where
  "parse_lines [] subdatasets = Inr subdatasets"
| "parse_lines (line # lines) subdatasets =
     (case parse_line line subdatasets of
        Inl e \<Rightarrow> Inl e
      | Inr subdatasets' \<Rightarrow> parse_lines lines subdatasets')"

text \<open>
  Any exception inside \<^verbatim>\<open>_get_subdatasets\<close> (from the invoker or from the parsing)
  is caught and turned into the empty dictionary.
\<close>

definition get_subdatasets ::
  "'f world \<Rightarrow> processor \<Rightarrow> state \<Rightarrow> (string \<times> string) list \<times> state" where
  "get_subdatasets w self s =
     (let gdalinfo_path =
            (if exists s ''/usr/bin/gdalinfo'' then ''/usr/bin/gdalinfo''
             else environ_get w ''LAMBDA_TASK_ROOT'' [] @ ''/miniconda3/bin/gdalinfo'');
          cmd = [gdalinfo_path, input_path self]
      in (case run_command w cmd 600 s of
            (Inl e, s') \<Rightarrow> ([], s')
          | (Inr (success, output), s') \<Rightarrow>
              (if \<not> success then ([], s')
               else (case parse_lines (splitlines output) [] of
                       Inl e \<Rightarrow> ([], s')
                     | Inr subdatasets \<Rightarrow> (subdatasets, s')))))"

subsection \<open>\<^verbatim>\<open>process_band\<close>\<close>

text \<open>
  The upload reads the local file: it raises when there is no such file or when the
  object store refuses the object. \<^verbatim>\<open>os.remove\<close> deletes a file and raises on
  anything else.
\<close>

definition upload_file ::
  "'f world \<Rightarrow> string \<Rightarrow> string \<Rightarrow> string \<Rightarrow> state \<Rightarrow> (exn + unit) \<times> state" where
  "upload_file w local_path bucket key s =
     (let s' = s\<lparr>calls := calls s @ [UploadFile local_path bucket key]\<rparr>
      in if files s local_path = Some File \<and> s3_accepts w bucket key
         then (Inr (), s') else (Inl BotoError, s'))"

definition os_remove :: "string \<Rightarrow> state \<Rightarrow> (exn + unit) \<times> state" where
  "os_remove path s =
     (let s' = s\<lparr>calls := calls s @ [Remove path]\<rparr>
      in (case files s path of
            Some File \<Rightarrow> (Inr (), s'\<lparr>files := (files s)(path := None)\<rparr>)
          | Some Directory \<Rightarrow> (Inl OSError, s')
          | None \<Rightarrow> (Inl OSError, s')))"

definition temp_file_of :: "string \<Rightarrow> string" where
  "temp_file_of band_name = ''/tmp/'' @ band_name @ ''_cog.tiff''"

definition s3_key_of :: "processor \<Rightarrow> string \<Rightarrow> string" where
  "s3_key_of self band_name = filename self @ ''/'' @ band_name @ ''_cog.tiff''"

text \<open>
  The \<^verbatim>\<open>try\<close> block of \<^verbatim>\<open>process_band\<close> together with its
  \<^verbatim>\<open>except Exception\<close> handler, which turns every exception into \<^verbatim>\<open>None\<close>.
\<close>

definition convert_and_upload ::
  "'f world \<Rightarrow> processor \<Rightarrow> string \<Rightarrow> string \<Rightarrow> state \<Rightarrow> string option \<times> state" where
  "convert_and_upload w self band_name subdataset_path s =
     (let temp_file = temp_file_of band_name;
          s3_key = s3_key_of self band_name;
          gdal_translate_path =
            (if exists s ''/usr/bin/gdal_translate'' then ''/usr/bin/gdal_translate''
             else environ_get w ''LAMBDA_TASK_ROOT'' [] @ ''/miniconda3/bin/gdal_translate'');
          translate_cmd =
            [gdal_translate_path,
             ''-of'', ''COG'',
             ''-co'', ''TILED=YES'',
             ''-co'', ''BLOCKXSIZE=256'',
             ''-co'', ''BLOCKYSIZE=256'',
             ''-co'', ''COMPRESS=DEFLATE'',
             ''-co'', ''NUM_THREADS=ALL_CPUS'',
             ''--config'', ''GDAL_CACHEMAX'', ''256'',
             subdataset_path,
             temp_file]
      in (case run_command w translate_cmd 600 s of
            (Inl e, s1) \<Rightarrow> (None, s1)
          | (Inr (success, output), s1) \<Rightarrow>
              (if \<not> success then (None, s1)
               else (case upload_file w temp_file (output_bucket self) s3_key s1 of
                       (Inl e, s2) \<Rightarrow> (None, s2)
                     | (Inr u, s2) \<Rightarrow>
                         (Some (''s3://'' @ output_bucket self @ ''/'' @ s3_key), s2)))))"

text \<open>
  The \<^verbatim>\<open>finally\<close> clause runs on every path; an exception of
  \<^verbatim>\<open>os.remove\<close> replaces the value that was about to be returned.
\<close>

definition process_band ::
  "'f world \<Rightarrow> processor \<Rightarrow> string \<times> string \<Rightarrow> state \<Rightarrow> (exn + string option) \<times> state" where
  "process_band w self band_info s =
     (let (band_name, subdataset_path) = band_info;
          temp_file = temp_file_of band_name;
          (r, s1) = convert_and_upload w self band_name subdataset_path s
      in if exists s1 temp_file
         then (case os_remove temp_file s1 of
                 (Inl e, s2) \<Rightarrow> (Inl e, s2)
               | (Inr u, s2) \<Rightarrow> (Inr r, s2))
         else (Inr r, s1))"

section \<open>MetadataHandler\<close>

definition TABLE_NAME :: string where
  "TABLE_NAME = ''Files''"

definition REQUIRED_FIELDS :: "string list" where
  "REQUIRED_FIELDS = [''Unique_Id'', ''Acquisition_Date'', ''Acquisition_Time_in_GMT'']"

definition VALID_REGIONS :: "string list" where
  "VALID_REGIONS = [''ap-south-1'', ''us-east-1'', ''us-west-2'']"

text \<open>
  The printed form of a list of plain strings, as the f-string of the constructor's
  error message shows \<^verbatim>\<open>VALID_REGIONS\<close>.
\<close>

fun join_with :: "string \<Rightarrow> string list \<Rightarrow> string" where
  "join_with sep [] = []"
| "join_with sep [x] = x"
| "join_with sep (x # y # ys) = x @ sep @ join_with sep (y # ys)"

definition repr_strings :: "string list \<Rightarrow> string" where
  "repr_strings xs =
     ''['' @ join_with '', '' (map (\<lambda>x. [CHR 0x27] @ x @ [CHR 0x27]) xs) @ '']''"

text \<open>
  The constructor rejects a region outside \<^verbatim>\<open>VALID_REGIONS\<close> and then creates
  its client, which checks the region name; the handler it builds is known by its
  region.
\<close>

definition metadata_handler_init :: "'f world \<Rightarrow> string \<Rightarrow> exn + string" where
  "metadata_handler_init w region_name =
     (if region_name \<notin> set VALID_REGIONS
      then Inl (ValueError (''Invalid region. Must be one of '' @ repr_strings VALID_REGIONS))
      else if \<not> region_name_ok w region_name then Inl InvalidRegionError
      else Inr region_name)"

subsection \<open>\<^verbatim>\<open>_extract_metadata\<close>\<close>

text \<open>\<^verbatim>\<open>d.update(values)\<close> assigns the items of \<open>values\<close> one by one.\<close>

definition dict_update :: "('k \<times> 'v) list \<Rightarrow> ('k \<times> 'v) list \<Rightarrow> ('k \<times> 'v) list" where
  "dict_update d vals = fold (\<lambda>(k, v). AList.update k v) vals d"

fun merge_domains :: "(string \<times> 'f pydict) list \<Rightarrow> 'f pydict \<Rightarrow> 'f pydict" where
  "merge_domains [] processed_metadata = processed_metadata"
| "merge_domains ((domain, vals) # rest) processed_metadata =
     merge_domains rest
       (if domain = [] then dict_update processed_metadata vals
        else AList.update domain (PDict vals) processed_metadata)"

text \<open>
  Every exception (the tool failing, output that is not JSON, anything else) is caught
  and gives the empty dictionary. The test of the return code repeats what
  \<^verbatim>\<open>check=True\<close> has already done.
\<close>

definition extract_metadata :: "'f world \<Rightarrow> string \<Rightarrow> state \<Rightarrow> 'f pydict \<times> state" where
  "extract_metadata w h5_file_path s =
     (let cmd = [''gdalinfo'', ''-json'', h5_file_path];
          (r, f) = subprocess_run w (spawn w cmd) None (files s);
          s' = s\<lparr>files := f, calls := calls s @ [Spawn cmd]\<rparr>
      in (case r of
            Inl e \<Rightarrow> ([], s')
          | Inr result \<Rightarrow>
              (if cp_returncode result \<noteq> 0 then ([], s')
               else (case json_loads w (cp_stdout result) of
                       None \<Rightarrow> ([], s')
                     | Some None \<Rightarrow> ([], s')
                     | Some (Some domains) \<Rightarrow> (merge_domains domains [], s')))))"

subsection \<open>\<^verbatim>\<open>_process_metadata\<close>\<close>

definition dict_get :: "('k \<times> 'v) list \<Rightarrow> 'k \<Rightarrow> 'v \<Rightarrow> 'v" where
  "dict_get d k dflt = (case map_of d k of None \<Rightarrow> dflt | Some v \<Rightarrow> v)"

fun is_list :: "'f pyval \<Rightarrow> bool" where
  "is_list (PList xs) = True"
| "is_list v = False"

fun is_float :: "'f pyval \<Rightarrow> bool" where
  "is_float (PFloat x) = True"
| "is_float v = False"

fun is_str :: "'f pyval \<Rightarrow> bool" where
  "is_str (PStr x) = True"
| "is_str v = False"

fun required_fields_loop ::
  "'f runtime \<Rightarrow> 'f pydict \<Rightarrow> string list \<Rightarrow> 'f pydict \<Rightarrow> exn + 'f pydict" where
  "required_fields_loop r raw_metadata [] processed = Inr processed"
| "required_fields_loop r raw_metadata (field # more_fields) processed =
     (case map_of raw_metadata field of
        None \<Rightarrow> required_fields_loop r raw_metadata more_fields processed
      | Some v \<Rightarrow>
          (case py_str r v of
             Inl e \<Rightarrow> Inl e
           | Inr t \<Rightarrow>
               required_fields_loop r raw_metadata more_fields
                 (AList.update field (PStr t) processed)))"

text \<open>The expression \<^verbatim>\<open>value[0] if isinstance(value, list) and len(value) == 1 else value\<close>.\<close>

fun unwrap_single :: "'f pyval \<Rightarrow> 'f pyval" where
  "unwrap_single (PList [x]) = x"
| "unwrap_single v = v"

fun remaining_fields_loop ::
  "'f runtime \<Rightarrow> 'f pydict \<Rightarrow> 'f pydict \<Rightarrow> exn + 'f pydict" where
  "remaining_fields_loop r [] processed = Inr processed"
| "remaining_fields_loop r ((key, v) # rest) processed =
     (if v \<noteq> PNone then
        (if is_list v \<or> is_float v
         then remaining_fields_loop r rest (AList.update key (unwrap_single v) processed)
         else (case py_str r v of
                 Inl e \<Rightarrow> Inl e
               | Inr t \<Rightarrow> remaining_fields_loop r rest (AList.update key (PStr t) processed)))
      else remaining_fields_loop r rest processed)"

text \<open>
  The \<^verbatim>\<open>try\<close> block of \<^verbatim>\<open>_process_metadata\<close>. The only operation in it
  that can raise on decoded JSON values is the conversion to text.
\<close>

definition process_metadata_body :: "'f runtime \<Rightarrow> 'f pydict \<Rightarrow> exn + 'f pydict" where
  "process_metadata_body r raw_metadata =
     (case required_fields_loop r raw_metadata REQUIRED_FIELDS [] of
        Inl e \<Rightarrow> Inl e
      | Inr processed \<Rightarrow>
          (let date_str = dict_get raw_metadata ''Acquisition_Date'' (PStr []);
               time_str = dict_get raw_metadata ''Acquisition_Time_in_GMT'' (PStr [])
           in if truthy r date_str \<and> truthy r time_str
              then (case py_str r date_str of
                      Inl e \<Rightarrow> Inl e
                    | Inr d \<Rightarrow>
                        (case py_str r time_str of
                           Inl e \<Rightarrow> Inl e
                         | Inr t \<Rightarrow>
                             remaining_fields_loop r raw_metadata
                               (AList.update ''acquisition_timestamp''
                                  (PStr (d @ ''T'' @ t @ ''Z'')) processed)))
              else remaining_fields_loop r raw_metadata processed))"

text \<open>The \<^verbatim>\<open>except\<close> branch returns the empty dictionary.\<close>

definition process_metadata :: "'f runtime \<Rightarrow> 'f pydict \<Rightarrow> 'f pydict" where
  "process_metadata r raw_metadata =
     (case process_metadata_body r raw_metadata of
        Inl e \<Rightarrow> []
      | Inr processed \<Rightarrow> processed)"

text \<open>
  What the steps before the loop over the fields leave under a key: the text of a
  required field, or the synthesized timestamp.
\<close>

definition early_entry :: "'f runtime \<Rightarrow> 'f pydict \<Rightarrow> string \<Rightarrow> 'f pyval option" where
  "early_entry r raw k =
     (if k = ''acquisition_timestamp''
         \<and> truthy r (dict_get raw ''Acquisition_Date'' (PStr []))
         \<and> truthy r (dict_get raw ''Acquisition_Time_in_GMT'' (PStr []))
      then Some (PStr (str_of r (dict_get raw ''Acquisition_Date'' (PStr [])) @ ''T''
                       @ str_of r (dict_get raw ''Acquisition_Time_in_GMT'' (PStr [])) @ ''Z''))
      else if k \<in> set REQUIRED_FIELDS
      then (case map_of raw k of None \<Rightarrow> None | Some v \<Rightarrow> Some (PStr (str_of r v)))
      else None)"

subsection \<open>\<^verbatim>\<open>upload_metadata\<close>\<close>

fun dynamo_item :: "'f runtime \<Rightarrow> 'f pydict \<Rightarrow> exn + item" where
  "dynamo_item r [] = Inr []"
| "dynamo_item r ((k, v) # rest) =
     (case py_str r v of
        Inl e \<Rightarrow> Inl e
      | Inr t \<Rightarrow>
          (case dynamo_item r rest of
             Inl e \<Rightarrow> Inl e
           | Inr item \<Rightarrow> Inr ((k, if is_str v then S t else N t) # item)))"

text \<open>
  The table is the sequence of items the store has accepted. The two
  \<^verbatim>\<open>ValueError\<close>s raised inside, a conversion to text that raises and every
  fault of the store end in the \<^verbatim>\<open>except\<close> branches, which return
  \<^verbatim>\<open>False\<close>.
\<close>

definition upload_metadata :: "'f world \<Rightarrow> string \<Rightarrow> state \<Rightarrow> bool \<times> state" where
  "upload_metadata w h5_file_path s =
     (let (raw_metadata, s1) = extract_metadata w h5_file_path s
      in if raw_metadata = [] then (False, s1)
         else (let processed_data = process_metadata (rt w) raw_metadata
               in if processed_data = [] then (False, s1)
                  else (case dynamo_item (rt w) processed_data of
                          Inl e \<Rightarrow> (False, s1)
                        | Inr item \<Rightarrow>
                            (let s2 = s1\<lparr>calls := calls s1 @ [PutItem TABLE_NAME item]\<rparr>
                             in (case put_item w TABLE_NAME item of
                                   PutOk \<Rightarrow>
                                     (True, s2\<lparr>table := table s2 @ [(TABLE_NAME, item)]\<rparr>)
                                 | PutClientError \<Rightarrow> (False, s2)
                                 | PutOtherError \<Rightarrow> (False, s2))))))"

section \<open>The orchestrator and the two entry points\<close>

text \<open>
  The worker pool runs \<^verbatim>\<open>process_band\<close> once for every discovered band. The
  model runs the bands one after the other in the order in which their futures
  complete, which the world chooses (\<open>as_completed\<close>); each future holds what its
  call returned or raised.
\<close>

fun run_pool ::
  "'f world \<Rightarrow> processor \<Rightarrow> (string \<times> string) list \<Rightarrow> state
     \<Rightarrow> (string \<times> (exn + string option)) list \<times> state" where
  "run_pool w self [] s = ([], s)"
| "run_pool w self ((band, path) # rest) s =
     (let (r, s1) = process_band w self (band, path) s;
          (rs, s2) = run_pool w self rest s1
      in ((band, r) # rs, s2))"

text \<open>
  The loop over the completed futures: a truthy result (a non-empty string) is stored
  under its band; \<^verbatim>\<open>None\<close> and a raised exception store nothing.
\<close>

fun collect ::
  "(string \<times> (exn + string option)) list \<Rightarrow> (string \<times> string) list
     \<Rightarrow> (string \<times> string) list" where
  "collect [] results = results"
| "collect ((band, r) # rest) results =
     collect rest
       (case r of
          Inr (Some result) \<Rightarrow> if result \<noteq> [] then AList.update band result results else results
        | Inr None \<Rightarrow> results
        | Inl e \<Rightarrow> results)"

text \<open>
  \<^verbatim>\<open>ThreadPoolExecutor\<close> refuses a bound below one with a
  \<^verbatim>\<open>ValueError\<close>, which nothing in \<^verbatim>\<open>process\<close> catches. The pool is only
  created when a band was discovered.
\<close>

definition process ::
  "'f world \<Rightarrow> processor \<Rightarrow> state \<Rightarrow> (exn + (string \<times> string) list) \<times> state" where
  "process w self s =
     (let (metadata_success, s1) = upload_metadata w (input_path self) s;
          (subdatasets, s2) = get_subdatasets w self s1
      in if subdatasets = [] then (Inr [], s2)
         else if max_workers self \<le> 0
         then (Inl (ValueError ''max_workers must be greater than 0''), s2)
         else (let (futures, s3) = run_pool w self (as_completed w subdatasets) s2
               in (Inr (collect futures []), s3)))"

text \<open>
  Notions for stating the properties of one run of \<^verbatim>\<open>process\<close>: the mapping that
  discovery returned, the order in which the futures complete, the state in which the
  pool starts, and the state in which the \<open>i\<close>-th call of \<^verbatim>\<open>process_band\<close> in a
  given order starts, which is the starting state after the \<open>i\<close> calls before it.
\<close>

definition discovered :: "'f world \<Rightarrow> processor \<Rightarrow> state \<Rightarrow> (string \<times> string) list" where
  "discovered w self s =
     fst (get_subdatasets w self (snd (upload_metadata w (input_path self) s)))"

definition pool_order :: "'f world \<Rightarrow> processor \<Rightarrow> state \<Rightarrow> (string \<times> string) list" where
  "pool_order w self s = as_completed w (discovered w self s)"

definition pool_start :: "'f world \<Rightarrow> processor \<Rightarrow> state \<Rightarrow> state" where
  "pool_start w self s =
     snd (get_subdatasets w self (snd (upload_metadata w (input_path self) s)))"

definition state_before ::
  "'f world \<Rightarrow> processor \<Rightarrow> (string \<times> string) list \<Rightarrow> state \<Rightarrow> nat \<Rightarrow> state" where
  "state_before w self order s i =
     foldl (\<lambda>t band_info. snd (process_band w self band_info t)) s (take i order)"

text \<open>A future whose call returned a location, as opposed to \<^verbatim>\<open>None\<close> or a fault.\<close>

fun returned_location :: "exn + string option \<Rightarrow> bool" where
  "returned_location (Inr (Some loc)) = True"
| "returned_location (Inr None) = False"
| "returned_location (Inl e) = False"

text \<open>\<^verbatim>\<open>os.path.basename\<close> and the root part of \<^verbatim>\<open>os.path.splitext\<close>.\<close>

definition basename :: "string \<Rightarrow> string" where
  "basename p = rev (takeWhile (\<lambda>c. c \<noteq> CHR ''/'') (rev p))"

definition splitext_root :: "string \<Rightarrow> string" where
  "splitext_root b =
     (let root = rev (drop 1 (dropWhile (\<lambda>c. c \<noteq> CHR ''.'') (rev b)))
      in if CHR ''.'' \<in> set b \<and> dropWhile (\<lambda>c. c = CHR ''.'') root \<noteq> [] then root else b)"

text \<open>
  The constructor. It creates the client of the object store, which checks the region
  name, before it builds the metadata handler. It also writes tuning variables for the
  external tools into the process environment; none of them is read by the code
  modelled here.
\<close>

definition processor_init :: "'f world \<Rightarrow> string \<Rightarrow> string \<Rightarrow> int \<Rightarrow> exn + processor" where
  "processor_init w path bucket workers =
     (let region_name = environ_get w ''AWS_DEFAULT_REGION'' ''ap-south-1''
      in if \<not> region_name_ok w region_name then Inl InvalidRegionError
         else (case metadata_handler_init w region_name of
                 Inl e \<Rightarrow> Inl e
               | Inr handler \<Rightarrow>
                   Inr \<lparr>input_path = ''/vsis3/'' @ path, output_bucket = bucket,
                        max_workers = workers, filename = splitext_root (basename path),
                        region = region_name\<rparr>))"

text \<open>
  A triggering event is its list of records, each naming a bucket and an object key.
  A response has a status code and a body; an error body holds the exception whose text
  is reported. The duration that \<^verbatim>\<open>process_file\<close> reports is wall-clock time
  and is left out.
\<close>

type_synonym event = "(string \<times> string) list"

datatype body =
    MetadataAndFiles bool "string list"
  | Completed string "string list"
  | Error exn

record response =
  statusCode :: int
  body :: body

definition lambda_handler :: "'f world \<Rightarrow> event \<Rightarrow> state \<Rightarrow> response \<times> state" where
  "lambda_handler w event s =
     (let region_name = environ_get w ''AWS_DEFAULT_REGION'' ''ap-south-1''
      in (case metadata_handler_init w region_name of
            Inl e \<Rightarrow> (\<lparr>statusCode = 500, body = Error e\<rparr>, s)
          | Inr metadata_handler \<Rightarrow>
              (case index0 event of
                 Inl e \<Rightarrow> (\<lparr>statusCode = 500, body = Error e\<rparr>, s)
               | Inr (bucket, key) \<Rightarrow>
                   (let file_path = ''/vsis3/'' @ bucket @ ''/'' @ key;
                        (metadata_success, s1) = upload_metadata w file_path s;
                        destination_bucket = environ_get w ''DESTINATION_BUCKET'' ''final-cog''
                    in (case processor_init w (bucket @ ''/'' @ key) destination_bucket 5 of
                          Inl e \<Rightarrow> (\<lparr>statusCode = 500, body = Error e\<rparr>, s1)
                        | Inr processor \<Rightarrow>
                            (case process w processor s1 of
                               (Inl e, s2) \<Rightarrow> (\<lparr>statusCode = 500, body = Error e\<rparr>, s2)
                             | (Inr results, s2) \<Rightarrow>
                                 (\<lparr>statusCode = 200,
                                   body = MetadataAndFiles metadata_success
                                     (if results \<noteq> [] then map fst results else [])\<rparr>,
                                  s2)))))))"

definition process_file :: "'f world \<Rightarrow> event \<Rightarrow> state \<Rightarrow> response \<times> state" where
  "process_file w event s =
     (case index0 event of
        Inl e \<Rightarrow> (\<lparr>statusCode = 500, body = Error e\<rparr>, s)
      | Inr (source_bucket, source_key) \<Rightarrow>
          (case environ w ''DESTINATION_BUCKET'' of
             None \<Rightarrow> (\<lparr>statusCode = 500, body = Error (KeyError ''DESTINATION_BUCKET'')\<rparr>, s)
           | Some destination_bucket \<Rightarrow>
               (case processor_init w (source_bucket @ ''/'' @ source_key)
                       destination_bucket 10 of
                  Inl e \<Rightarrow> (\<lparr>statusCode = 500, body = Error e\<rparr>, s)
                | Inr processor \<Rightarrow>
                    (case process w processor s of
                       (Inl e, s1) \<Rightarrow> (\<lparr>statusCode = 500, body = Error e\<rparr>, s1)
                     | (Inr results, s1) \<Rightarrow>
                         (if results = []
                          then (\<lparr>statusCode = 500,
                                 body = Error (PlainException ''No output files generated'')\<rparr>,
                                s1)
                          else (\<lparr>statusCode = 200,
                                 body = Completed ''Processing completed successfully''
                                   (map fst results)\<rparr>, s1))))))"

section \<open>Concrete worlds for the examples\<close>

definition demo_runtime :: "unit runtime" where
  "demo_runtime =
     \<lparr>repr_of = (\<lambda>v. Inr ''<repr>''), float_nonzero = (\<lambda>x. True), int_max_str_digits = 4300\<rparr>"

text \<open>The ASCII codec: bytes below 128 are characters, any other byte is an error.\<close>

definition ascii_decode :: "string \<Rightarrow> string option" where
  "ascii_decode bytes = (if list_all (\<lambda>c. (of_char c :: nat) < 128) bytes then Some bytes else None)"

definition quick_proc :: "int \<Rightarrow> string \<Rightarrow> string \<Rightarrow> proc" where
  "quick_proc code out err =
     \<lparr>run_time = 1, returncode = code, stdout = out, stderr = err, writes = (\<lambda>f. f)\<rparr>"

text \<open>
  A world whose tools behave as follows: \<^verbatim>\<open>gdalinfo -json\<close> prints a text that
  decodes to the given metadata domains, \<^verbatim>\<open>/usr/bin/gdalinfo\<close> prints the given
  listing, \<^verbatim>\<open>/usr/bin/gdal_translate\<close> writes its output file and exits with
  code 0, or with code 1 if that file is in the given list of failures,
  \<^verbatim>\<open>sleep\<close> runs for 700 seconds, \<^verbatim>\<open>garbled\<close> prints the bytes FF FE
  and exits with code 0, and no other binary exists. Pipes decode as ASCII. The table
  accepts every item, the object store every object outside the bucket
  \<^verbatim>\<open>locked\<close>, and futures complete in reverse order of submission.
\<close>

definition demo_spawn :: "string \<Rightarrow> string list \<Rightarrow> string list \<Rightarrow> launch" where
  "demo_spawn listing failing cmd =
     (case cmd of
        [] \<Rightarrow> NotLaunched
      | prog # args \<Rightarrow>
          (if prog = ''gdalinfo'' then Launched (quick_proc 0 ''<json>'' [])
           else if prog = ''/usr/bin/gdalinfo'' then Launched (quick_proc 0 listing [])
           else if prog = ''/usr/bin/gdal_translate'' then
             Launched ((quick_proc (if last args \<in> set failing then 1 else 0) []
                          (if last args \<in> set failing then ''conversion failed'' else []))
                        \<lparr>writes := (\<lambda>f. f(last args \<mapsto> File))\<rparr>)
           else if prog = ''sleep'' then Launched ((quick_proc 0 [] [])\<lparr>run_time := 700\<rparr>)
           else if prog = ''garbled'' then Launched (quick_proc 0 [CHR 0xFF, CHR 0xFE] [])
           else NotLaunched))"

definition demo_world ::
  "string \<Rightarrow> string list \<Rightarrow> (string \<times> unit pydict) list \<Rightarrow> unit world" where
  "demo_world listing failing domains =
     \<lparr>environ = [''DESTINATION_BUCKET'' \<mapsto> ''final-cog''],
      spawn = demo_spawn listing failing,
      decode = ascii_decode,
      region_name_ok = (\<lambda>name. name \<noteq> [] \<and> CHR '' '' \<notin> set name),
      json_loads = (\<lambda>t. if t = ''<json>'' then Some (Some domains) else None),
      rt = demo_runtime,
      put_item = (\<lambda>t i. PutOk),
      s3_accepts = (\<lambda>b k. b \<noteq> ''locked''),
      as_completed = rev\<rparr>"

definition demo_state :: state where
  "demo_state =
     \<lparr>files = [''/usr/bin/gdalinfo'' \<mapsto> File, ''/usr/bin/gdal_translate'' \<mapsto> File],
      table = [], calls = []\<rparr>"

definition demo_processor :: processor where
  "demo_processor =
     \<lparr>input_path = ''/vsis3/in/f.h5'', output_bucket = ''final-cog'', max_workers = 5,
      filename = ''f'', region = ''ap-south-1''\<rparr>"

definition subdataset_line :: "string \<Rightarrow> string \<Rightarrow> string \<Rightarrow> string" where
  "subdataset_line n file band =
     ''SUBDATASET_'' @ n @ ''_NAME=HDF5:'' @ [CHR 0x22] @ file @ [CHR 0x22] @ ''://IMG_'' @ band
       @ [CHR 0x0A]"

definition two_band_listing :: string where
  "two_band_listing = subdataset_line ''1'' ''f.h5'' ''VIS'' @ subdataset_line ''2'' ''f.h5'' ''SWIR''"

definition twelve_band_listing :: string where
  "twelve_band_listing =
     concat (map (\<lambda>n. subdataset_line n ''f.h5'' (''B'' @ n))
       [''01'', ''02'', ''03'', ''04'', ''05'', ''06'', ''07'', ''08'', ''09'', ''10'', ''11'', ''12''])"

definition three_failures :: "string list" where
  "three_failures = [''/tmp/B02_cog.tiff'', ''/tmp/B07_cog.tiff'', ''/tmp/B11_cog.tiff'']"

definition twelve_futures :: "(string \<times> (exn + string option)) list" where
  "twelve_futures =
         [(''B12'', Inr (Some ''s3://final-cog/f/B12_cog.tiff'')),
          (''B11'', Inr None),
          (''B10'', Inr (Some ''s3://final-cog/f/B10_cog.tiff'')),
          (''B09'', Inr (Some ''s3://final-cog/f/B09_cog.tiff'')),
          (''B08'', Inr (Some ''s3://final-cog/f/B08_cog.tiff'')),
          (''B07'', Inr None),
          (''B06'', Inr (Some ''s3://final-cog/f/B06_cog.tiff'')),
          (''B05'', Inr (Some ''s3://final-cog/f/B05_cog.tiff'')),
          (''B04'', Inr (Some ''s3://final-cog/f/B04_cog.tiff'')),
          (''B03'', Inr (Some ''s3://final-cog/f/B03_cog.tiff'')),
          (''B02'', Inr None),
          (''B01'', Inr (Some ''s3://final-cog/f/B01_cog.tiff''))]"

definition demo_metadata :: "(string \<times> unit pydict) list" where
  "demo_metadata =
     [([], [(''Unique_Id'', PStr ''3DIMG_01JAN2023_0130''),
            (''Acquisition_Date'', PStr ''20230101''),
            (''Acquisition_Time_in_GMT'', PStr ''0130'')])]"

definition mixed_metadata :: "unit pydict" where
  "mixed_metadata =
     [(''Unique_Id'', PStr ''X1''), (''Acquisition_Date'', PNone), (''Corner'', PList [PInt 7]),
      (''Extent'', PList [PInt 1, PInt 2]), (''Gain'', PFloat ()), (''Orbit'', PInt 5),
      (''Calibrated'', PBool True), (''Comment'', PNone)]"

definition all_fail :: "string list" where
  "all_fail = [''/tmp/VIS_cog.tiff'', ''/tmp/SWIR_cog.tiff'']"

definition demo_item :: item where
  "demo_item =
     [(''Unique_Id'', S ''3DIMG_01JAN2023_0130''), (''Acquisition_Date'', S ''20230101''),
      (''Acquisition_Time_in_GMT'', S ''0130''), (''acquisition_timestamp'', S ''20230101T0130Z'')]"

section \<open>Verified properties\<close>

subsection \<open>The external tool invoker\<close>

text \<open>
  Claim C5, as amended. Whatever command and timeout the invoker is given: a subprocess
  that runs beyond the timeout gives \<open>(False, ''Timeout'')\<close>; one that ends within the
  timeout and whose two output streams decode as text gives \<open>(True, stdout)\<close> if it
  exits with code zero and \<open>(False, stderr)\<close> if it exits non-zero; in these three
  cases the invoker returns (\<open>Inr\<close>) rather than raising. When a stream does not
  decode, the invoker raises \<^verbatim>\<open>UnicodeDecodeError\<close>, whatever the exit code.
\<close>

theorem run_command_outcomes:
  assumes "spawn w command = Launched p"
  shows "(timeout < run_time p \<longrightarrow>
            fst (run_command w command timeout s) = Inr (False, ''Timeout''))
       \<and> (\<forall>out err. run_time p \<le> timeout \<and> text_of w (stdout p) = Some out
              \<and> text_of w (stderr p) = Some err \<and> returncode p = 0 \<longrightarrow>
            fst (run_command w command timeout s) = Inr (True, out))
       \<and> (\<forall>out err. run_time p \<le> timeout \<and> text_of w (stdout p) = Some out
              \<and> text_of w (stderr p) = Some err \<and> returncode p \<noteq> 0 \<longrightarrow>
            fst (run_command w command timeout s) = Inr (False, err))
       \<and> (run_time p \<le> timeout
              \<and> (text_of w (stdout p) = None \<or> text_of w (stderr p) = None) \<longrightarrow>
            fst (run_command w command timeout s) = Inl UnicodeDecodeError)"
  using assms
  by (auto simp: run_command_def subprocess_run_def split: option.splits)

theorem run_command_outcomes_witness:
  "fst (run_command (demo_world ''listing'' [''/tmp/a''] []) [''/usr/bin/gdalinfo'', ''x''] 600 demo_state)
     = Inr (True, ''listing'')
   \<and> fst (run_command (demo_world ''listing'' [''/tmp/a''] []) [''sleep'', ''700''] 600 demo_state)
     = Inr (False, ''Timeout'')
   \<and> fst (run_command (demo_world ''listing'' [''/tmp/a''] []) [''/usr/bin/gdal_translate'', ''/tmp/a'']
            600 demo_state) = Inr (False, ''conversion failed'')
   \<and> fst (run_command (demo_world ''listing'' [''/tmp/a''] []) [''garbled''] 600 demo_state)
     = Inl UnicodeDecodeError"
proof -
  let ?w = "demo_world ''listing'' [''/tmp/a''] []"
  have texts: "text_of ?w ''listing'' = Some ''listing''" "text_of ?w [] = Some []"
    "text_of ?w ''conversion failed'' = Some ''conversion failed''"
    "text_of ?w [CHR 0xFF, CHR 0xFE] = None"
    by code_simp+
  show ?thesis
    using texts
      run_command_outcomes
        [of ?w "[''/usr/bin/gdalinfo'', ''x'']" "quick_proc 0 ''listing'' []" 600 demo_state]
      run_command_outcomes
        [of ?w "[''sleep'', ''700'']" "(quick_proc 0 [] [])\<lparr>run_time := 700\<rparr>" 600 demo_state]
      run_command_outcomes
        [of ?w "[''/usr/bin/gdal_translate'', ''/tmp/a'']"
            "(quick_proc 1 [] ''conversion failed'')\<lparr>writes := (\<lambda>f. f(''/tmp/a'' \<mapsto> File))\<rparr>"
            600 demo_state]
      run_command_outcomes
        [of ?w "[''garbled'']" "quick_proc 0 [CHR 0xFF, CHR 0xFE] []" 600 demo_state]
    by (simp add: demo_world_def demo_spawn_def quick_proc_def)
qed

text \<open>
  Claim C5 as it was stated fails on a subprocess that exits with code zero after
  printing bytes that are not valid text: the invoker raises.
\<close>

theorem run_command_undecodable_counterexample:
  "spawn (demo_world [] [] []) [''garbled''] = Launched (quick_proc 0 [CHR 0xFF, CHR 0xFE] [])
   \<and> returncode (quick_proc 0 [CHR 0xFF, CHR 0xFE] []) = 0
   \<and> run_time (quick_proc 0 [CHR 0xFF, CHR 0xFE] []) \<le> 600
   \<and> fst (run_command (demo_world [] [] []) [''garbled''] 600 demo_state) = Inl UnicodeDecodeError"
proof -
  have "fst (run_command (demo_world [] [] []) [''garbled''] 600 demo_state) = Inl UnicodeDecodeError"
    by code_simp
  then show ?thesis
    by (simp add: demo_world_def demo_spawn_def quick_proc_def)
qed

subsection \<open>The band converter\<close>

lemma process_band_removes_temp:
  assumes "fst (process_band w self (band, path) s) = Inr r"
  shows "files (snd (process_band w self (band, path) s)) (temp_file_of band) = None"
  using assms
  by (auto simp: process_band_def os_remove_def exists_def Let_def
           split: prod.splits option.splits fkind.splits if_splits)

lemma process_band_returns:
  assumes "files (snd (convert_and_upload w self band path s)) (temp_file_of band) \<noteq> Some Directory"
  shows "\<exists>r. fst (process_band w self (band, path) s) = Inr r"
  using assms
  by (auto simp: process_band_def os_remove_def exists_def Let_def
           split: prod.splits option.splits fkind.splits if_splits)

text \<open>
  Claim C6. Whenever the band converter returns, be it with a location (conversion and
  upload succeeded) or with \<^verbatim>\<open>None\<close> (the conversion failed or the upload raised),
  no file is left at the temporary path derived from the band identifier. The converter
  does return unless that path holds something \<^verbatim>\<open>os.remove\<close> cannot delete (a
  directory).
\<close>

theorem process_band_cleanup:
  "(\<forall>r. fst (process_band w self (band, path) s) = Inr r \<longrightarrow>
       files (snd (process_band w self (band, path) s)) (temp_file_of band) = None)
   \<and> (files (snd (convert_and_upload w self band path s)) (temp_file_of band) \<noteq> Some Directory
        \<longrightarrow> (\<exists>r. fst (process_band w self (band, path) s) = Inr r))"
  using process_band_removes_temp process_band_returns by blast

theorem process_band_cleanup_witness:
  "fst (process_band (demo_world [] [] []) demo_processor (''VIS'', ''p'') demo_state)
     = Inr (Some ''s3://final-cog/f/VIS_cog.tiff'')
   \<and> files (snd (process_band (demo_world [] [] []) demo_processor (''VIS'', ''p'') demo_state))
       ''/tmp/VIS_cog.tiff'' = None
   \<and> files (snd (convert_and_upload (demo_world [] [''/tmp/VIS_cog.tiff''] []) demo_processor
                  ''VIS'' ''p'' demo_state)) ''/tmp/VIS_cog.tiff'' = Some File
   \<and> fst (process_band (demo_world [] [''/tmp/VIS_cog.tiff''] []) demo_processor (''VIS'', ''p'')
            demo_state) = Inr None
   \<and> files (snd (process_band (demo_world [] [''/tmp/VIS_cog.tiff''] []) demo_processor
                  (''VIS'', ''p'') demo_state)) ''/tmp/VIS_cog.tiff'' = None
   \<and> fst (process_band (demo_world [] [] []) (demo_processor\<lparr>output_bucket := ''locked''\<rparr>)
            (''VIS'', ''p'') demo_state) = Inr None
   \<and> files (snd (process_band (demo_world [] [] []) (demo_processor\<lparr>output_bucket := ''locked''\<rparr>)
                  (''VIS'', ''p'') demo_state)) ''/tmp/VIS_cog.tiff'' = None"
proof -
  have ok: "fst (process_band (demo_world [] [] []) demo_processor (''VIS'', ''p'') demo_state)
              = Inr (Some ''s3://final-cog/f/VIS_cog.tiff'')"
    by code_simp
  have partial: "files (snd (convert_and_upload (demo_world [] [''/tmp/VIS_cog.tiff''] [])
                   demo_processor ''VIS'' ''p'' demo_state)) ''/tmp/VIS_cog.tiff'' = Some File"
    by code_simp
  have failed: "fst (process_band (demo_world [] [''/tmp/VIS_cog.tiff''] []) demo_processor
                  (''VIS'', ''p'') demo_state) = Inr None"
    by code_simp
  have refused: "fst (process_band (demo_world [] [] [])
                   (demo_processor\<lparr>output_bucket := ''locked''\<rparr>) (''VIS'', ''p'') demo_state)
                   = Inr None"
    by code_simp
  show ?thesis
    using ok partial failed refused
      process_band_cleanup[of "demo_world [] [] []" demo_processor "''VIS''" "''p''" demo_state]
      process_band_cleanup[of "demo_world [] [''/tmp/VIS_cog.tiff''] []" demo_processor
        "''VIS''" "''p''" demo_state]
      process_band_cleanup[of "demo_world [] [] []" "demo_processor\<lparr>output_bucket := ''locked''\<rparr>"
        "''VIS''" "''p''" demo_state]
    by (simp add: temp_file_of_def)
qed

subsection \<open>The orchestrator\<close>

lemma process_band_location:
  assumes "fst (process_band w self bi s) = Inr (Some loc)"
  shows "loc \<noteq> []"
  using assms
  by (auto simp: process_band_def convert_and_upload_def os_remove_def Let_def
           split: prod.splits option.splits fkind.splits if_splits sum.splits)

lemma run_pool_bands: "map fst (fst (run_pool w self xs s)) = map fst xs"
  by (induction xs arbitrary: s) (auto simp: split_beta Let_def)

lemma run_pool_location:
  "(b, Inr (Some loc)) \<in> set (fst (run_pool w self xs s)) \<Longrightarrow> loc \<noteq> []"
proof (induction xs arbitrary: s)
  case Nil
  then show ?case by simp
next
  case (Cons x xs)
  obtain band path where x: "x = (band, path)" by (cases x)
  obtain r s1 where pb: "process_band w self (band, path) s = (r, s1)" by (cases "process_band w self (band, path) s")
  obtain rs s2 where rp: "run_pool w self xs s1 = (rs, s2)" by (cases "run_pool w self xs s1")
  from Cons.prems x pb rp have "(b, Inr (Some loc)) = (band, r) \<or> (b, Inr (Some loc)) \<in> set (fst (run_pool w self xs s1))"
    by simp
  then show ?case
  proof
    assume "(b, Inr (Some loc)) = (band, r)"
    with pb have "fst (process_band w self (band, path) s) = Inr (Some loc)" by simp
    then show ?thesis by (rule process_band_location)
  next
    assume "(b, Inr (Some loc)) \<in> set (fst (run_pool w self xs s1))"
    then show ?thesis by (rule Cons.IH)
  qed
qed

lemma collect_lookup:
  "distinct (map fst futs) \<Longrightarrow>
   map_of (collect futs acc) X =
     (case map_of futs X of
        Some (Inr (Some loc)) \<Rightarrow> if loc \<noteq> [] then Some loc else map_of acc X
      | Some (Inr None) \<Rightarrow> map_of acc X
      | Some (Inl e) \<Rightarrow> map_of acc X
      | None \<Rightarrow> map_of acc X)"
proof (induction futs arbitrary: acc)
  case Nil
  then show ?case by simp
next
  case (Cons f futs)
  obtain band r where f: "f = (band, r)" by (cases f)
  from Cons.prems f have d: "distinct (map fst futs)" and nb: "band \<notin> fst ` set futs" by auto
  from nb have none: "map_of futs band = None" by (simp add: map_of_eq_None_iff)
  have "map_of (collect (f # futs) acc) X =
          map_of (collect futs
            (case r of
               Inr (Some result) \<Rightarrow> if result \<noteq> [] then AList.update band result acc else acc
             | Inr None \<Rightarrow> acc
             | Inl e \<Rightarrow> acc)) X"
    by (simp add: f)
  also have "\<dots> =
      (case map_of (f # futs) X of
        Some (Inr (Some loc)) \<Rightarrow> if loc \<noteq> [] then Some loc else map_of acc X
      | Some (Inr None) \<Rightarrow> map_of acc X
      | Some (Inl e) \<Rightarrow> map_of acc X
      | None \<Rightarrow> map_of acc X)"
    unfolding Cons.IH[OF d] using none
    by (cases "X = band") (auto simp: f update_conv' split: sum.splits option.splits)
  finally show ?case .
qed


lemma length_update_new:
  "k \<notin> fst ` set al \<Longrightarrow> length (AList.update k v al) = Suc (length al)"
  by (induction al) auto

lemma collect_count:
  "distinct (map fst futs) \<Longrightarrow> fst ` set acc \<inter> fst ` set futs = {} \<Longrightarrow>
   \<forall>b loc. (b, Inr (Some loc)) \<in> set futs \<longrightarrow> loc \<noteq> [] \<Longrightarrow>
   length (collect futs acc) =
     length acc + length (filter (\<lambda>(b, r). returned_location r) futs)"
proof (induction futs arbitrary: acc)
  case Nil
  then show ?case by simp
next
  case (Cons f futs)
  obtain band r where f: "f = (band, r)" by (cases f)
  from Cons.prems f have d: "distinct (map fst futs)" and nb: "band \<notin> fst ` set futs"
    and na: "band \<notin> fst ` set acc" and disj: "fst ` set acc \<inter> fst ` set futs = {}"
    and ne: "\<forall>b loc. (b, Inr (Some loc)) \<in> set futs \<longrightarrow> loc \<noteq> []"
    by auto
  show ?case
  proof (cases "returned_location r")
    case True
    then obtain loc where r: "r = Inr (Some loc)" by (cases r rule: returned_location.cases) auto
    with Cons.prems(3) f have loc: "loc \<noteq> []" by auto
    have keys: "fst ` set (AList.update band loc acc) = insert band (fst ` set acc)"
      by (simp add: dom_update)
    have disj': "fst ` set (AList.update band loc acc) \<inter> fst ` set futs = {}"
      using keys disj nb by auto
    show ?thesis
      using Cons.IH[OF d disj' ne] loc na by (simp add: f r length_update_new)
  next
    case False
    then have "collect (f # futs) acc = collect futs acc"
      by (cases r rule: returned_location.cases) (auto simp: f)
    with False show ?thesis
      using Cons.IH[OF d disj ne] by (simp add: f)
  qed
qed

lemma parse_line_distinct:
  "distinct (map fst acc) \<Longrightarrow> parse_line l acc = Inr d \<Longrightarrow> distinct (map fst d)"
  by (auto simp: parse_line_def Let_def distinct_update split: if_splits sum.splits)

lemma parse_lines_distinct:
  "distinct (map fst acc) \<Longrightarrow> parse_lines ls acc = Inr d \<Longrightarrow> distinct (map fst d)"
proof (induction ls arbitrary: acc)
  case Nil
  then show ?case by simp
next
  case (Cons l ls)
  then show ?case
    by (auto split: sum.splits dest: parse_line_distinct)
qed

lemma get_subdatasets_distinct: "distinct (map fst (fst (get_subdatasets w self s)))"
  by (auto simp: get_subdatasets_def Let_def split: prod.splits sum.splits
           dest: parse_lines_distinct[rotated])

lemma state_before_Suc:
  "state_before w self (x # xs) s (Suc i) = state_before w self xs (snd (process_band w self x s)) i"
  by (simp add: state_before_def)

lemma run_pool_outcomes:
  "fst (run_pool w self order s) =
     map (\<lambda>i. (fst (order ! i),
                fst (process_band w self (order ! i) (state_before w self order s i))))
       [0..<length order]"
proof (induction order arbitrary: s)
  case Nil
  then show ?case by simp
next
  case (Cons x xs)
  obtain band path where x: "x = (band, path)" by (cases x)
  have first: "state_before w self ((band, path) # xs) s 0 = s"
    by (simp add: state_before_def)
  have upt: "[0..<length (x # xs)] = 0 # map Suc [0..<length xs]"
    by (simp add: upt_conv_Cons map_Suc_upt del: upt_Suc)
  have "fst (run_pool w self (x # xs) s) =
          (band, fst (process_band w self x s))
            # fst (run_pool w self xs (snd (process_band w self x s)))"
    by (simp add: x split_beta)
  also have "fst (run_pool w self xs (snd (process_band w self x s))) =
     map (\<lambda>i. (fst (xs ! i),
                fst (process_band w self (xs ! i)
                       (state_before w self xs (snd (process_band w self x s)) i))))
       [0..<length xs]"
    by (rule Cons.IH)
  finally show ?case
    unfolding upt by (simp add: first x state_before_Suc comp_def)
qed

lemma map_of_indexed:
  assumes "distinct (map f [0..<n])" and "i < n"
  shows "map_of (map (\<lambda>j. (f j, g j)) [0..<n]) (f i) = Some (g i)"
proof -
  have "distinct (map fst (map (\<lambda>j. (f j, g j)) [0..<n]))"
    using assms(1) by (simp add: comp_def)
  moreover have "(f i, g i) \<in> set (map (\<lambda>j. (f j, g j)) [0..<n])"
    using assms(2) by auto
  ultimately show ?thesis by (rule map_of_is_SomeI)
qed

text \<open>
  Claim C1. Take a pool of at least one worker and any order in which the futures
  complete (any rearrangement of the discovered entries). Then \<^verbatim>\<open>process\<close> returns a
  mapping, and for the band of every discovered entry the mapping holds its destination
  exactly when the call of \<^verbatim>\<open>process_band\<close> for that entry, in the state in which
  it started, returned a location; a call that returned \<^verbatim>\<open>None\<close> or raised gives
  its band no entry, and changes the entry of no other band, since each entry is fixed
  by its own call. A band that was not discovered has no entry, and the mapping has as
  many entries as there are calls that returned a location: 9 when 3 of 12 fail.
\<close>

theorem process_isolates_band_failures:
  assumes "0 < max_workers self"
    and "mset (pool_order w self s) = mset (discovered w self s)"
  shows "\<exists>results. fst (process w self s) = Inr results
       \<and> (\<forall>i < length (pool_order w self s).
            map_of results (fst (pool_order w self s ! i)) =
              (case fst (process_band w self (pool_order w self s ! i)
                          (state_before w self (pool_order w self s) (pool_start w self s) i)) of
                 Inr (Some loc) \<Rightarrow> Some loc
               | _ \<Rightarrow> None))
       \<and> (\<forall>X. X \<notin> fst ` set (discovered w self s) \<longrightarrow> map_of results X = None)
       \<and> length results =
           length (filter
             (\<lambda>i. returned_location
                    (fst (process_band w self (pool_order w self s ! i)
                           (state_before w self (pool_order w self s) (pool_start w self s) i))))
             [0..<length (pool_order w self s)])"
proof -
  let ?subs = "discovered w self s"
  let ?order = "pool_order w self s"
  let ?start = "pool_start w self s"
  let ?out = "\<lambda>i. fst (process_band w self (?order ! i) (state_before w self ?order ?start i))"
  let ?futs = "fst (run_pool w self ?order ?start)"
  have futs: "?futs = map (\<lambda>i. (fst (?order ! i), ?out i)) [0..<length ?order]"
    by (rule run_pool_outcomes)
  have futs_keys: "map fst ?futs = map fst ?order"
    by (rule run_pool_bands)
  have "distinct (map fst ?subs)"
    by (simp add: discovered_def get_subdatasets_distinct)
  moreover have keys_mset: "mset (map fst ?order) = mset (map fst ?subs)"
  proof -
    have "image_mset fst (mset ?order) = image_mset fst (mset ?subs)"
      using assms(2) by simp
    then show ?thesis by simp
  qed
  ultimately have dist_order: "distinct (map fst ?order)"
    using mset_eq_imp_distinct_iff[OF keys_mset] by simp
  with futs_keys have dist: "distinct (map fst ?futs)" by simp
  have ne: "\<forall>b loc. (b, Inr (Some loc)) \<in> set ?futs \<longrightarrow> loc \<noteq> []"
    by (blast dest: run_pool_location)
  have res: "fst (process w self s) = Inr (collect ?futs [])"
  proof (cases "?subs = []")
    case True
    with assms(2) have "?order = []" by simp
    with True show ?thesis
      by (simp add: process_def pool_order_def pool_start_def discovered_def split_beta Let_def)
  next
    case False
    with assms(1) show ?thesis
      by (simp add: process_def pool_order_def pool_start_def discovered_def split_beta Let_def)
  qed
  have look: "map_of (collect ?futs []) X =
           (case map_of ?futs X of
              Some (Inr (Some loc)) \<Rightarrow> Some loc
            | _ \<Rightarrow> None)" for X
  proof (cases "map_of ?futs X")
    case None
    then show ?thesis by (simp add: collect_lookup[OF dist])
  next
    case (Some r)
    then have "(X, r) \<in> set ?futs" by (rule map_of_SomeD)
    with ne have "\<And>loc. r = Inr (Some loc) \<Longrightarrow> loc \<noteq> []" by blast
    with Some show ?thesis
      by (auto simp: collect_lookup[OF dist] split: sum.splits option.splits)
  qed
  have at_index: "map_of (collect ?futs []) (fst (?order ! i)) =
           (case ?out i of Inr (Some loc) \<Rightarrow> Some loc | _ \<Rightarrow> None)"
    if "i < length ?order" for i
  proof -
    have "map (\<lambda>j. fst (?order ! j)) [0..<length ?order]
            = map fst (map ((!) ?order) [0..<length ?order])"
      by (simp add: comp_def)
    also have "\<dots> = map fst ?order"
      by (simp only: map_nth)
    finally have "distinct (map (\<lambda>j. fst (?order ! j)) [0..<length ?order])"
      using dist_order by simp
    then have "map_of ?futs (fst (?order ! i)) = Some (?out i)"
      unfolding futs using that by (rule map_of_indexed)
    then show ?thesis by (simp add: look)
  qed
  have absent: "map_of (collect ?futs []) X = None" if "X \<notin> fst ` set ?subs" for X
  proof -
    have "set (map fst ?order) = set (map fst ?subs)"
      using keys_mset by (rule mset_eq_setD)
    moreover have "fst ` set ?futs = set (map fst ?futs)"
      by simp
    ultimately have "fst ` set ?futs = fst ` set ?subs"
      using futs_keys by simp
    with that have "X \<notin> fst ` set ?futs"
      by simp
    then have "map_of ?futs X = None" by (simp add: map_of_eq_None_iff)
    then show ?thesis by (simp add: look)
  qed
  have "length (collect ?futs []) = length (filter (\<lambda>(band, r). returned_location r) ?futs)"
    using collect_count[OF dist _ ne, of "[]"] by simp
  also have "\<dots> = length (filter (\<lambda>i. returned_location (?out i)) [0..<length ?order])"
    unfolding futs by (simp add: filter_map comp_def)
  finally have count: "length (collect ?futs []) =
      length (filter (\<lambda>i. returned_location (?out i)) [0..<length ?order])" .
  show ?thesis
  proof (intro exI conjI allI impI)
    show "fst (process w self s) = Inr (collect ?futs [])"
      by (rule res)
  next
    fix i assume "i < length ?order"
    then show "map_of (collect ?futs []) (fst (?order ! i)) =
           (case ?out i of Inr (Some loc) \<Rightarrow> Some loc | _ \<Rightarrow> None)"
      by (rule at_index)
  next
    fix X assume "X \<notin> fst ` set ?subs"
    then show "map_of (collect ?futs []) X = None"
      by (rule absent)
  next
    show "length (collect ?futs []) =
      length (filter (\<lambda>i. returned_location (?out i)) [0..<length ?order])"
      by (rule count)
  qed
qed

theorem process_isolates_band_failures_witness:
  "length (discovered (demo_world twelve_band_listing three_failures demo_metadata)
             demo_processor demo_state) = 12
   \<and> (case fst (process (demo_world twelve_band_listing three_failures demo_metadata)
                   demo_processor demo_state) of
        Inl e \<Rightarrow> False
      | Inr results \<Rightarrow>
          length results = 9 \<and> map_of results ''B02'' = None
          \<and> map_of results ''B03'' = Some ''s3://final-cog/f/B03_cog.tiff'')"
proof -
  let ?w = "demo_world twelve_band_listing three_failures demo_metadata"
  let ?order = "pool_order ?w demo_processor demo_state"
  let ?start = "pool_start ?w demo_processor demo_state"
  let ?out = "\<lambda>i. fst (process_band ?w demo_processor (?order ! i)
                        (state_before ?w demo_processor ?order ?start i))"
  have reversed: "?order = rev (discovered ?w demo_processor demo_state)"
    by (simp add: pool_order_def demo_world_def)
  have order: "mset ?order = mset (discovered ?w demo_processor demo_state)"
    by (simp add: reversed)
  have workers: "0 < max_workers demo_processor"
    by (simp add: demo_processor_def)
  have futures: "fst (run_pool ?w demo_processor ?order ?start) = twelve_futures"
    by code_simp
  have indexed: "map (\<lambda>i. (fst (?order ! i), ?out i)) [0..<length ?order] = twelve_futures"
    using run_pool_outcomes[of ?w demo_processor ?order ?start] futures by simp
  have len: "length ?order = 12"
    using arg_cong[OF indexed, of length] by (simp add: twelve_futures_def)
  then have twelve: "length (discovered ?w demo_processor demo_state) = 12"
    by (simp add: reversed)
  have outs: "map ?out [0..<length ?order] = map snd twelve_futures"
    using arg_cong[OF indexed, of "map snd"] by (simp add: comp_def)
  have b02: "fst (?order ! 10) = ''B02'' \<and> ?out 10 = Inr None"
    using arg_cong[OF indexed, of "\<lambda>l. l ! 10"] len by (simp add: twelve_futures_def)
  have b03: "fst (?order ! 9) = ''B03'' \<and> ?out 9 = Inr (Some ''s3://final-cog/f/B03_cog.tiff'')"
    using arg_cong[OF indexed, of "\<lambda>l. l ! 9"] len by (simp add: twelve_futures_def)
  have "length (filter (\<lambda>i. returned_location (?out i)) [0..<length ?order])
          = length (filter returned_location (map ?out [0..<length ?order]))"
    by (simp add: filter_map comp_def)
  also have "\<dots> = 9"
    unfolding outs by (simp add: twelve_futures_def)
  finally have nine: "length (filter (\<lambda>i. returned_location (?out i)) [0..<length ?order]) = 9" .
  obtain results where res: "fst (process ?w demo_processor demo_state) = Inr results"
    and entries: "\<forall>i < length ?order. map_of results (fst (?order ! i)) =
              (case ?out i of Inr (Some loc) \<Rightarrow> Some loc | _ \<Rightarrow> None)"
    and count: "length results = length (filter (\<lambda>i. returned_location (?out i)) [0..<length ?order])"
    using process_isolates_band_failures[OF workers order] by blast
  have "map_of results ''B02'' = None"
    using entries[rule_format, of 10] len b02 by simp
  moreover have "map_of results ''B03'' = Some ''s3://final-cog/f/B03_cog.tiff''"
    using entries[rule_format, of 9] len b03 by simp
  ultimately show ?thesis
    using twelve res count nine by simp
qed

subsection \<open>Metadata processing\<close>

lemma str_ok_py_str: "str_ok r v \<Longrightarrow> py_str r v = Inr (str_of r v)"
  by (cases "py_str r v") (simp_all add: str_ok_def str_of_def)

lemma remaining_fields_lookup:
  assumes "distinct (map fst raw)" and "\<forall>(f, x) \<in> set raw. str_ok r x"
  shows "\<exists>processed. remaining_fields_loop r raw acc = Inr processed
           \<and> (\<forall>k. map_of processed k =
                 (case map_of raw k of
                    None \<Rightarrow> map_of acc k
                  | Some v \<Rightarrow>
                      if v = PNone then map_of acc k
                      else if is_list v \<or> is_float v then Some (unwrap_single v)
                      else Some (PStr (str_of r v))))"
  using assms
proof (induction raw arbitrary: acc)
  case Nil
  then show ?case by simp
next
  case (Cons e raw)
  obtain key v where e: "e = (key, v)" by (cases e)
  from Cons.prems e have d: "distinct (map fst raw)" and nk: "key \<notin> fst ` set raw"
    and ok: "\<forall>(f, x) \<in> set raw. str_ok r x" and okv: "str_ok r v"
    by auto
  from nk have none: "map_of raw key = None" by (simp add: map_of_eq_None_iff)
  let ?acc' = "if v \<noteq> PNone then
                 (if is_list v \<or> is_float v then AList.update key (unwrap_single v) acc
                  else AList.update key (PStr (str_of r v)) acc)
               else acc"
  have step: "remaining_fields_loop r (e # raw) acc = remaining_fields_loop r raw ?acc'"
    by (simp add: e str_ok_py_str[OF okv])
  obtain processed where p: "remaining_fields_loop r raw ?acc' = Inr processed"
    and look: "\<forall>k. map_of processed k =
                 (case map_of raw k of
                    None \<Rightarrow> map_of ?acc' k
                  | Some v \<Rightarrow>
                      if v = PNone then map_of ?acc' k
                      else if is_list v \<or> is_float v then Some (unwrap_single v)
                      else Some (PStr (str_of r v)))"
    using Cons.IH[OF d ok, of ?acc'] by blast
  have "map_of processed k =
                 (case map_of (e # raw) k of
                    None \<Rightarrow> map_of acc k
                  | Some v \<Rightarrow>
                      if v = PNone then map_of acc k
                      else if is_list v \<or> is_float v then Some (unwrap_single v)
                      else Some (PStr (str_of r v)))" for k
    using look[rule_format, of k] none
    by (cases "k = key") (auto simp: e update_conv' split: option.splits)
  with step p show ?case by simp
qed

lemma required_fields_lookup:
  assumes "\<forall>(f, x) \<in> set raw. str_ok r x"
  shows "\<exists>processed. required_fields_loop r raw fs acc = Inr processed
           \<and> (\<forall>k. map_of processed k =
                 (if k \<in> set fs
                  then (case map_of raw k of
                          None \<Rightarrow> map_of acc k
                        | Some v \<Rightarrow> Some (PStr (str_of r v)))
                  else map_of acc k))"
proof (induction fs arbitrary: acc)
  case Nil
  then show ?case by simp
next
  case (Cons f fs)
  show ?case
  proof (cases "map_of raw f")
    case None
    then have step: "required_fields_loop r raw (f # fs) acc = required_fields_loop r raw fs acc"
      by simp
    obtain processed where p: "required_fields_loop r raw fs acc = Inr processed"
      and look: "\<forall>k. map_of processed k =
                 (if k \<in> set fs
                  then (case map_of raw k of
                          None \<Rightarrow> map_of acc k
                        | Some v \<Rightarrow> Some (PStr (str_of r v)))
                  else map_of acc k)"
      using Cons.IH[of acc] by blast
    have "map_of processed k =
                 (if k \<in> set (f # fs)
                  then (case map_of raw k of
                          None \<Rightarrow> map_of acc k
                        | Some v \<Rightarrow> Some (PStr (str_of r v)))
                  else map_of acc k)" for k
      using look[rule_format, of k] None by (cases "k = f") auto
    with step p show ?thesis by simp
  next
    case (Some v)
    then have "(f, v) \<in> set raw" by (rule map_of_SomeD)
    with assms have okv: "str_ok r v" by auto
    let ?acc' = "AList.update f (PStr (str_of r v)) acc"
    have step: "required_fields_loop r raw (f # fs) acc = required_fields_loop r raw fs ?acc'"
      by (simp add: Some str_ok_py_str[OF okv])
    obtain processed where p: "required_fields_loop r raw fs ?acc' = Inr processed"
      and look: "\<forall>k. map_of processed k =
                 (if k \<in> set fs
                  then (case map_of raw k of
                          None \<Rightarrow> map_of ?acc' k
                        | Some v \<Rightarrow> Some (PStr (str_of r v)))
                  else map_of ?acc' k)"
      using Cons.IH[of ?acc'] by blast
    have "map_of processed k =
                 (if k \<in> set (f # fs)
                  then (case map_of raw k of
                          None \<Rightarrow> map_of acc k
                        | Some v \<Rightarrow> Some (PStr (str_of r v)))
                  else map_of acc k)" for k
      using look[rule_format, of k] Some
      by (cases "k = f") (auto simp: update_conv' split: option.splits)
    with step p show ?thesis by simp
  qed
qed

lemma dict_get_str_ok:
  assumes "\<forall>(f, x) \<in> set raw. str_ok r x"
  shows "str_ok r (dict_get raw k (PStr []))"
proof (cases "map_of raw k")
  case None
  then show ?thesis by (simp add: dict_get_def str_ok_def)
next
  case (Some v)
  then have "(k, v) \<in> set raw" by (rule map_of_SomeD)
  with assms Some show ?thesis by (auto simp: dict_get_def)
qed

lemma process_metadata_lookup:
  assumes "distinct (map fst raw)" and "\<forall>(f, x) \<in> set raw. str_ok r x"
  shows "map_of (process_metadata r raw) k =
           (case map_of raw k of
              None \<Rightarrow> early_entry r raw k
            | Some v \<Rightarrow>
                if v = PNone then early_entry r raw k
                else if is_list v \<or> is_float v then Some (unwrap_single v)
                else Some (PStr (str_of r v)))"
proof -
  let ?date = "dict_get raw ''Acquisition_Date'' (PStr [])"
  let ?time = "dict_get raw ''Acquisition_Time_in_GMT'' (PStr [])"
  obtain req where req: "required_fields_loop r raw REQUIRED_FIELDS [] = Inr req"
    and req_look: "\<forall>k. map_of req k =
                 (if k \<in> set REQUIRED_FIELDS
                  then (case map_of raw k of
                          None \<Rightarrow> map_of [] k
                        | Some v \<Rightarrow> Some (PStr (str_of r v)))
                  else map_of [] k)"
    using required_fields_lookup[OF assms(2), of REQUIRED_FIELDS "[]"] by blast
  let ?acc = "if truthy r ?date \<and> truthy r ?time
              then AList.update ''acquisition_timestamp''
                     (PStr (str_of r ?date @ ''T'' @ str_of r ?time @ ''Z'')) req
              else req"
  have body: "process_metadata_body r raw = remaining_fields_loop r raw ?acc"
    by (simp add: process_metadata_body_def req Let_def
          str_ok_py_str[OF dict_get_str_ok[OF assms(2)]])
  obtain processed where p: "remaining_fields_loop r raw ?acc = Inr processed"
    and look: "\<forall>k. map_of processed k =
                 (case map_of raw k of
                    None \<Rightarrow> map_of ?acc k
                  | Some v \<Rightarrow>
                      if v = PNone then map_of ?acc k
                      else if is_list v \<or> is_float v then Some (unwrap_single v)
                      else Some (PStr (str_of r v)))"
    using remaining_fields_lookup[OF assms, of ?acc] by blast
  have ts: "''acquisition_timestamp'' \<notin> set REQUIRED_FIELDS"
    by (simp add: REQUIRED_FIELDS_def)
  have early: "map_of ?acc k = early_entry r raw k"
  proof (cases "k = ''acquisition_timestamp''")
    case True
    with ts have "k \<notin> set REQUIRED_FIELDS" by simp
    with req_look have "map_of req k = None" by simp
    with True show ?thesis
      unfolding early_entry_def using ts by (simp add: update_conv')
  next
    case False
    then have "map_of ?acc k = map_of req k" by (simp add: update_conv')
    also have "\<dots> = early_entry r raw k"
      using False req_look[rule_format, of k] unfolding early_entry_def
      by (simp split: option.splits)
    finally show ?thesis .
  qed
  have same: "process_metadata r raw = processed"
    by (simp add: process_metadata_def body p)
  have "map_of processed k =
                 (case map_of raw k of
                    None \<Rightarrow> map_of ?acc k
                  | Some v \<Rightarrow>
                      if v = PNone then map_of ?acc k
                      else if is_list v \<or> is_float v then Some (unwrap_single v)
                      else Some (PStr (str_of r v)))"
    using look by blast
  then show ?thesis
    unfolding same early .
qed

text \<open>
  Claim C7, as amended. Take a raw mapping (a dictionary, so its keys are distinct) on
  whose values \<^verbatim>\<open>str\<close> does not raise. Processing stringifies every non-null scalar
  value, be it a string, an integer or a boolean, and also a dictionary, with two
  exceptions: a single-element list is unwrapped to its sole element, and a float is
  passed through unchanged as a number (as is every other list). An integer is thus
  stored as text, not passed through as a number. A null value is not stringified by
  this step: a null required field holds the text \<^verbatim>\<open>None\<close> from the step before,
  a null field named \<^verbatim>\<open>acquisition_timestamp\<close> holds the synthesized timestamp if
  one was made, and every other null field is left out.
\<close>

theorem process_metadata_normalises:
  assumes "distinct (map fst raw)" and "\<forall>(f, x) \<in> set raw. str_ok r x"
    and "map_of raw k = Some v"
  shows "(\<forall>x. v = PList [x] \<longrightarrow> map_of (process_metadata r raw) k = Some x)
       \<and> (\<forall>xs. v = PList xs \<and> length xs \<noteq> 1 \<longrightarrow>
            map_of (process_metadata r raw) k = Some (PList xs))
       \<and> (\<forall>x. v = PFloat x \<longrightarrow> map_of (process_metadata r raw) k = Some (PFloat x))
       \<and> (\<forall>i. v = PInt i \<longrightarrow> map_of (process_metadata r raw) k = Some (PStr (str_int i)))
       \<and> (\<forall>b. v = PBool b \<longrightarrow>
            map_of (process_metadata r raw) k = Some (PStr (if b then ''True'' else ''False'')))
       \<and> (\<forall>t. v = PStr t \<longrightarrow> map_of (process_metadata r raw) k = Some (PStr t))
       \<and> (\<forall>d t. v = PDict d \<and> repr_of r (PDict d) = Inr t \<longrightarrow>
            map_of (process_metadata r raw) k = Some (PStr t))
       \<and> (v = PNone \<and> k \<in> set REQUIRED_FIELDS \<longrightarrow>
            map_of (process_metadata r raw) k = Some (PStr ''None''))
       \<and> (v = PNone \<and> k = ''acquisition_timestamp'' \<longrightarrow>
            map_of (process_metadata r raw) k =
              (if truthy r (dict_get raw ''Acquisition_Date'' (PStr []))
                  \<and> truthy r (dict_get raw ''Acquisition_Time_in_GMT'' (PStr []))
               then Some (PStr (str_of r (dict_get raw ''Acquisition_Date'' (PStr [])) @ ''T''
                       @ str_of r (dict_get raw ''Acquisition_Time_in_GMT'' (PStr [])) @ ''Z''))
               else None))
       \<and> (v = PNone \<and> k \<notin> set REQUIRED_FIELDS \<and> k \<noteq> ''acquisition_timestamp'' \<longrightarrow>
            map_of (process_metadata r raw) k = None)"
proof -
  have multi: "unwrap_single (PList xs) = PList xs" if "length xs \<noteq> 1" for xs :: "'a pyval list"
  proof (cases xs)
    case Nil
    then show ?thesis by simp
  next
    case (Cons y ys)
    with that obtain z zs where "ys = z # zs" by (cases ys) auto
    with Cons show ?thesis by simp
  qed
  from assms(3) have "(k, v) \<in> set raw" by (rule map_of_SomeD)
  with assms(2) have okv: "str_ok r v" by auto
  have ts: "''acquisition_timestamp'' \<notin> set REQUIRED_FIELDS"
    by (simp add: REQUIRED_FIELDS_def)
  have look: "map_of (process_metadata r raw) k =
                (if v = PNone then early_entry r raw k
                 else if is_list v \<or> is_float v then Some (unwrap_single v)
                 else Some (PStr (str_of r v)))"
    using process_metadata_lookup[OF assms(1,2), of k] assms(3) by simp
  have single: "map_of (process_metadata r raw) k = Some x" if "v = PList [x]" for x
    using look that by simp
  have other_list: "map_of (process_metadata r raw) k = Some (PList xs)"
    if "v = PList xs \<and> length xs \<noteq> 1" for xs
    using look that multi[of xs] by simp
  have float: "map_of (process_metadata r raw) k = Some (PFloat x)" if "v = PFloat x" for x
    using look that by simp
  have integer: "map_of (process_metadata r raw) k = Some (PStr (str_int i))" if "v = PInt i" for i
  proof -
    from okv that have "py_str r (PInt i) = Inr (str_int i)"
      by (simp add: str_ok_def split: if_splits)
    then have "str_of r (PInt i) = str_int i"
      unfolding str_of_def by simp
    with look that show ?thesis by simp
  qed
  have boolean: "map_of (process_metadata r raw) k = Some (PStr (if b then ''True'' else ''False''))"
    if "v = PBool b" for b
    using look that by (simp add: str_of_def)
  have plain: "map_of (process_metadata r raw) k = Some (PStr t)" if "v = PStr t" for t
    using look that by (simp add: str_of_def)
  have dict: "map_of (process_metadata r raw) k = Some (PStr t)"
    if "v = PDict d \<and> repr_of r (PDict d) = Inr t" for d t
    using look that by (simp add: str_of_def)
  have null_required: "map_of (process_metadata r raw) k = Some (PStr ''None'')"
    if "v = PNone \<and> k \<in> set REQUIRED_FIELDS"
  proof -
    from that ts have "k \<noteq> ''acquisition_timestamp''" by blast
    with that assms(3) have "early_entry r raw k = Some (PStr ''None'')"
      unfolding early_entry_def by (simp add: str_of_def)
    with look that show ?thesis by simp
  qed
  have null_timestamp: "map_of (process_metadata r raw) k =
              (if truthy r (dict_get raw ''Acquisition_Date'' (PStr []))
                  \<and> truthy r (dict_get raw ''Acquisition_Time_in_GMT'' (PStr []))
               then Some (PStr (str_of r (dict_get raw ''Acquisition_Date'' (PStr [])) @ ''T''
                       @ str_of r (dict_get raw ''Acquisition_Time_in_GMT'' (PStr [])) @ ''Z''))
               else None)"
    if "v = PNone \<and> k = ''acquisition_timestamp''"
  proof -
    from that ts have "k \<notin> set REQUIRED_FIELDS" by blast
    with that have "early_entry r raw k =
              (if truthy r (dict_get raw ''Acquisition_Date'' (PStr []))
                  \<and> truthy r (dict_get raw ''Acquisition_Time_in_GMT'' (PStr []))
               then Some (PStr (str_of r (dict_get raw ''Acquisition_Date'' (PStr [])) @ ''T''
                       @ str_of r (dict_get raw ''Acquisition_Time_in_GMT'' (PStr [])) @ ''Z''))
               else None)"
      unfolding early_entry_def by simp
    with look that show ?thesis by simp
  qed
  have null_other: "map_of (process_metadata r raw) k = None"
    if "v = PNone \<and> k \<notin> set REQUIRED_FIELDS \<and> k \<noteq> ''acquisition_timestamp''"
  proof -
    from that have "early_entry r raw k = None"
      unfolding early_entry_def by simp
    with look that show ?thesis by simp
  qed
  from single other_list float integer boolean plain dict null_required null_timestamp null_other
  show ?thesis by blast
qed

lemma process_metadata_timestamp:
  assumes "distinct (map fst raw)" and "\<forall>(f, x) \<in> set raw. str_ok r x"
    and "map_of raw ''Acquisition_Date'' = Some d" and "map_of raw ''Acquisition_Time_in_GMT'' = Some t"
    and "truthy r d" and "truthy r t"
    and "map_of raw ''acquisition_timestamp'' = None \<or> map_of raw ''acquisition_timestamp'' = Some PNone"
  shows "map_of (process_metadata r raw) ''acquisition_timestamp'' =
           Some (PStr (str_of r d @ ''T'' @ str_of r t @ ''Z''))"
proof -
  have date: "dict_get raw ''Acquisition_Date'' (PStr []) = d"
    and time: "dict_get raw ''Acquisition_Time_in_GMT'' (PStr []) = t"
    using assms(3,4) by (simp_all add: dict_get_def)
  have early: "early_entry r raw ''acquisition_timestamp'' =
                 Some (PStr (str_of r d @ ''T'' @ str_of r t @ ''Z''))"
    unfolding early_entry_def date time using assms(5,6) by simp
  from assms(7) show ?thesis
  proof
    assume "map_of raw ''acquisition_timestamp'' = None"
    with process_metadata_lookup[OF assms(1,2), of "''acquisition_timestamp''"] early
    show ?thesis by simp
  next
    assume "map_of raw ''acquisition_timestamp'' = Some PNone"
    with process_metadata_lookup[OF assms(1,2), of "''acquisition_timestamp''"] early
    show ?thesis by simp
  qed
qed

theorem process_metadata_normalises_witness:
  "map_of (process_metadata demo_runtime mixed_metadata) ''Corner'' = Some (PInt 7)
   \<and> map_of (process_metadata demo_runtime mixed_metadata) ''Extent'' = Some (PList [PInt 1, PInt 2])
   \<and> map_of (process_metadata demo_runtime mixed_metadata) ''Gain'' = Some (PFloat ())
   \<and> map_of (process_metadata demo_runtime mixed_metadata) ''Orbit'' = Some (PStr ''5'')
   \<and> map_of (process_metadata demo_runtime mixed_metadata) ''Calibrated'' = Some (PStr ''True'')
   \<and> map_of (process_metadata demo_runtime mixed_metadata) ''Unique_Id'' = Some (PStr ''X1'')
   \<and> map_of (process_metadata demo_runtime mixed_metadata) ''Acquisition_Date'' = Some (PStr ''None'')
   \<and> map_of (process_metadata demo_runtime mixed_metadata) ''Comment'' = None"
proof -
  have d: "distinct (map fst mixed_metadata)"
    by (simp add: mixed_metadata_def)
  have ok: "\<forall>(f, x) \<in> set mixed_metadata. str_ok demo_runtime x"
    by code_simp
  have five: "str_int 5 = ''5''"
    by code_simp
  show ?thesis
    using process_metadata_normalises[OF d ok, of "''Corner''" "PList [PInt 7]"]
      process_metadata_normalises[OF d ok, of "''Extent''" "PList [PInt 1, PInt 2]"]
      process_metadata_normalises[OF d ok, of "''Gain''" "PFloat ()"]
      process_metadata_normalises[OF d ok, of "''Orbit''" "PInt 5"]
      process_metadata_normalises[OF d ok, of "''Calibrated''" "PBool True"]
      process_metadata_normalises[OF d ok, of "''Unique_Id''" "PStr ''X1''"]
      process_metadata_normalises[OF d ok, of "''Acquisition_Date''" PNone]
      process_metadata_normalises[OF d ok, of "''Comment''" PNone]
    by (auto simp: mixed_metadata_def five REQUIRED_FIELDS_def)
qed

text \<open>
  Claim C7 as it was stated fails on an integer, which is not passed through as a
  number but stored as the string of its digits, and on a null value, which is a
  scalar that is not stringified but left out.
\<close>

theorem process_metadata_integer_counterexample:
  "map_of (process_metadata demo_runtime [(''Orbit'', PInt 5), (''Comment'', PNone)]) ''Orbit''
     = Some (PStr ''5'')
   \<and> map_of (process_metadata demo_runtime [(''Orbit'', PInt 5), (''Comment'', PNone)]) ''Orbit''
     \<noteq> Some (PInt 5)
   \<and> map_of (process_metadata demo_runtime [(''Orbit'', PInt 5), (''Comment'', PNone)]) ''Comment''
     = None"
  by code_simp

lemma process_metadata_timestamp_scenario:
  "map_of (process_metadata demo_runtime
             [(''Acquisition_Date'', PStr ''20230101''), (''Acquisition_Time_in_GMT'', PStr ''0130'')])
     ''acquisition_timestamp'' = Some (PStr ''20230101T0130Z'')"
  by code_simp

text \<open>
  Claim C9 on the code. The raw fields of the scenario give the timestamp
  \<^verbatim>\<open>20230101T0130Z\<close>, and so does every raw mapping with a truthy date and time
  that has no field \<^verbatim>\<open>acquisition_timestamp\<close> of its own
  (\<open>process_metadata_timestamp\<close>). A raw mapping that has such a field loses the
  synthesized timestamp: the loop over the remaining fields runs over all fields and
  stores the raw value under the same key.
\<close>

theorem process_metadata_timestamp_overwritten:
  "map_of (process_metadata demo_runtime
             [(''Acquisition_Date'', PStr ''20230101''), (''Acquisition_Time_in_GMT'', PStr ''0130''),
              (''acquisition_timestamp'', PStr ''unset'')])
     ''acquisition_timestamp'' = Some (PStr ''unset'')"
  by code_simp

subsection \<open>Metadata upload\<close>

lemma extract_metadata_effects:
  "table (snd (extract_metadata w path s)) = table s
   \<and> calls (snd (extract_metadata w path s)) = calls s @ [Spawn [''gdalinfo'', ''-json'', path]]"
  by (simp add: extract_metadata_def Let_def split_beta split: sum.splits option.splits)

lemma upload_metadata_fails_closed_on_empty:
  assumes "fst (extract_metadata w path s) = []
           \<or> process_metadata (rt w) (fst (extract_metadata w path s)) = []"
  shows "\<not> fst (upload_metadata w path s)
       \<and> table (snd (upload_metadata w path s)) = table s
       \<and> calls (snd (upload_metadata w path s)) = calls s @ [Spawn [''gdalinfo'', ''-json'', path]]"
  using assms extract_metadata_effects[of w path s]
  by (auto simp: upload_metadata_def Let_def split_beta)

text \<open>
  Claim C2 on the code. Empty extraction and empty processing do end in failure with
  nothing written (\<open>upload_metadata_fails_closed_on_empty\<close>). A missing required
  field does not: \<^verbatim>\<open>_process_metadata\<close> copies the required fields that are there
  and never rejects a record for the ones that are not, so metadata without
  \<^verbatim>\<open>Acquisition_Date\<close> is written and reported as a success.
\<close>

theorem upload_metadata_missing_required_field:
  "fst (upload_metadata
          (demo_world [] []
             [([], [(''Unique_Id'', PStr ''X1''), (''Acquisition_Time_in_GMT'', PStr ''0130'')])])
          ''/vsis3/in/f.h5'' demo_state)
   \<and> table (snd (upload_metadata
          (demo_world [] []
             [([], [(''Unique_Id'', PStr ''X1''), (''Acquisition_Time_in_GMT'', PStr ''0130'')])])
          ''/vsis3/in/f.h5'' demo_state))
       = [(''Files'', [(''Unique_Id'', S ''X1''), (''Acquisition_Time_in_GMT'', S ''0130'')])]"
  by code_simp

lemma dynamo_item_tags:
  assumes "dynamo_item r processed = Inr item"
  shows "list_all2
           (\<lambda>(k, v) (k', a). k' = k
              \<and> ((\<exists>t. a = S t) \<longleftrightarrow> is_str v)
              \<and> (\<exists>t. py_str r v = Inr t \<and> a = (if is_str v then S t else N t)))
           processed item"
  using assms
proof (induction processed arbitrary: item)
  case Nil
  then show ?case by simp
next
  case (Cons e rest)
  obtain k v where e: "e = (k, v)" by (cases e)
  from Cons.prems e obtain t item' where t: "py_str r v = Inr t"
    and rest: "dynamo_item r rest = Inr item'"
    and item: "item = (k, if is_str v then S t else N t) # item'"
    by (auto split: sum.splits)
  from Cons.IH[OF rest] t show ?case
    unfolding item e by simp
qed

lemma dynamo_item_succeeds:
  "(\<exists>item. dynamo_item r processed = Inr item) \<longleftrightarrow> (\<forall>(k, v) \<in> set processed. str_ok r v)"
  by (induction processed) (auto simp: str_ok_def split: sum.splits)

text \<open>
  Claim C10. A call of \<^verbatim>\<open>upload_metadata\<close> runs the extraction and then sends at
  most one item to the table \<^verbatim>\<open>Files\<close>; it sends one exactly when extraction and
  processing gave fields and \<^verbatim>\<open>str\<close> raises on none of the processed values.
  The item sent has the fields of the processed mapping in their order; a field is
  tagged \<open>S\<close> exactly when its processed value is a string, every other value (a
  float, a list, a number unwrapped from a one-element list, \<dots>) is tagged \<open>N\<close>,
  and either tag holds \<^verbatim>\<open>str\<close> of the value. This does not depend on what the
  store answers: the item enters the table if the store accepts it, and nothing enters
  the table otherwise. The type of attributes has no third tag.
\<close>

theorem upload_metadata_tags_values:
  "\<exists>puts. calls (snd (upload_metadata w path s))
             = calls s @ Spawn [''gdalinfo'', ''-json'', path] # puts
     \<and> (puts = [] \<and> table (snd (upload_metadata w path s)) = table s
        \<or> (\<exists>item. puts = [PutItem TABLE_NAME item]
             \<and> list_all2
                 (\<lambda>(k, v) (k', a). k' = k
                    \<and> ((\<exists>t. a = S t) \<longleftrightarrow> is_str v)
                    \<and> (\<exists>t. py_str (rt w) v = Inr t \<and> a = (if is_str v then S t else N t)))
                 (process_metadata (rt w) (fst (extract_metadata w path s))) item
             \<and> table (snd (upload_metadata w path s))
                 = table s @ (if put_item w TABLE_NAME item = PutOk then [(TABLE_NAME, item)]
                              else [])))
     \<and> (puts \<noteq> [] \<longleftrightarrow>
          fst (extract_metadata w path s) \<noteq> []
          \<and> process_metadata (rt w) (fst (extract_metadata w path s)) \<noteq> []
          \<and> (\<forall>(k, v) \<in> set (process_metadata (rt w) (fst (extract_metadata w path s))).
                str_ok (rt w) v))"
proof -
  let ?raw = "fst (extract_metadata w path s)"
  let ?s1 = "snd (extract_metadata w path s)"
  let ?processed = "process_metadata (rt w) ?raw"
  let ?spawn = "Spawn [''gdalinfo'', ''-json'', path]"
  have effects: "table ?s1 = table s" "calls ?s1 = calls s @ [?spawn]"
    using extract_metadata_effects[of w path s] by simp_all
  show ?thesis
  proof (cases "?raw = [] \<or> ?processed = []")
    case True
    then have "upload_metadata w path s = (False, ?s1)"
      by (auto simp: upload_metadata_def Let_def split_beta)
    with effects True have "calls (snd (upload_metadata w path s)) = calls s @ ?spawn # []"
      and "table (snd (upload_metadata w path s)) = table s"
      by simp_all
    with True show ?thesis by blast
  next
    case False
    show ?thesis
    proof (cases "dynamo_item (rt w) ?processed")
      case (Inl e)
      with False have "upload_metadata w path s = (False, ?s1)"
        by (simp add: upload_metadata_def Let_def split_beta)
      with effects have c: "calls (snd (upload_metadata w path s)) = calls s @ ?spawn # []"
        and t: "table (snd (upload_metadata w path s)) = table s"
        by simp_all
      from Inl dynamo_item_succeeds[of "rt w" ?processed]
      have "\<not> (\<forall>(k, v) \<in> set ?processed. str_ok (rt w) v)" by simp
      with c t show ?thesis by blast
    next
      case (Inr item)
      let ?s2 = "?s1\<lparr>calls := calls ?s1 @ [PutItem TABLE_NAME item]\<rparr>"
      from False Inr have up: "upload_metadata w path s =
          (case put_item w TABLE_NAME item of
             PutOk \<Rightarrow> (True, ?s2\<lparr>table := table ?s2 @ [(TABLE_NAME, item)]\<rparr>)
           | PutClientError \<Rightarrow> (False, ?s2)
           | PutOtherError \<Rightarrow> (False, ?s2))"
        by (simp add: upload_metadata_def Let_def split_beta)
      have c: "calls (snd (upload_metadata w path s)) = calls s @ ?spawn # [PutItem TABLE_NAME item]"
        unfolding up using effects by (cases "put_item w TABLE_NAME item") simp_all
      have t: "table (snd (upload_metadata w path s))
                 = table s @ (if put_item w TABLE_NAME item = PutOk then [(TABLE_NAME, item)]
                              else [])"
        unfolding up using effects by (cases "put_item w TABLE_NAME item") simp_all
      from Inr dynamo_item_succeeds[of "rt w" ?processed]
      have ok: "\<forall>(k, v) \<in> set ?processed. str_ok (rt w) v" by blast
      note tags = dynamo_item_tags[OF Inr]
      have nonempty: "[PutItem TABLE_NAME item] \<noteq> []" by simp
      from c t tags ok False nonempty show ?thesis by blast
    qed
  qed
qed

theorem upload_metadata_tags_values_witness:
  "calls (snd (upload_metadata (demo_world [] [] [([], mixed_metadata)]) ''/vsis3/in/f.h5'' demo_state))
     = [Spawn [''gdalinfo'', ''-json'', ''/vsis3/in/f.h5''],
        PutItem ''Files''
          [(''Unique_Id'', S ''X1''), (''Acquisition_Date'', S ''None''), (''Corner'', N ''7''),
           (''Extent'', N ''<repr>''), (''Gain'', N ''<repr>''), (''Orbit'', S ''5''),
           (''Calibrated'', S ''True'')]]
   \<and> table (snd (upload_metadata (demo_world [] [] [([], mixed_metadata)]) ''/vsis3/in/f.h5'' demo_state))
     = [(''Files'',
         [(''Unique_Id'', S ''X1''), (''Acquisition_Date'', S ''None''), (''Corner'', N ''7''),
          (''Extent'', N ''<repr>''), (''Gain'', N ''<repr>''), (''Orbit'', S ''5''),
          (''Calibrated'', S ''True'')])]"
proof -
  let ?w = "demo_world [] [] [([], mixed_metadata)]"
  let ?up = "upload_metadata ?w ''/vsis3/in/f.h5'' demo_state"
  have raw: "fst (extract_metadata ?w ''/vsis3/in/f.h5'' demo_state) \<noteq> []"
    by code_simp
  have processed: "process_metadata demo_runtime (fst (extract_metadata ?w ''/vsis3/in/f.h5'' demo_state))
      = [(''Unique_Id'', PStr ''X1''), (''Acquisition_Date'', PStr ''None''), (''Corner'', PInt 7),
         (''Extent'', PList [PInt 1, PInt 2]), (''Gain'', PFloat ()), (''Orbit'', PStr ''5''),
         (''Calibrated'', PStr ''True'')]"
    by code_simp
  have seven: "str_nat 7 = ''7''" "str_int 7 = ''7''"
    by code_simp+
  have runtime: "rt ?w = demo_runtime"
    by (simp add: demo_world_def)
  have accepted: "put_item ?w t i = PutOk" for t i
    by (simp add: demo_world_def)
  have start: "calls demo_state = []" "table demo_state = []"
    by (simp_all add: demo_state_def)
  have ok: "\<forall>(k, v) \<in> set (process_metadata (rt ?w)
               (fst (extract_metadata ?w ''/vsis3/in/f.h5'' demo_state))). str_ok (rt ?w) v"
    by code_simp
  from upload_metadata_tags_values[of ?w "''/vsis3/in/f.h5''" demo_state]
  obtain puts where c: "calls (snd ?up) = calls demo_state @ Spawn [''gdalinfo'', ''-json'', ''/vsis3/in/f.h5''] # puts"
    and sent: "puts = [] \<and> table (snd ?up) = table demo_state
        \<or> (\<exists>item. puts = [PutItem TABLE_NAME item]
             \<and> list_all2
                 (\<lambda>(k, v) (k', a). k' = k
                    \<and> ((\<exists>t. a = S t) \<longleftrightarrow> is_str v)
                    \<and> (\<exists>t. py_str (rt ?w) v = Inr t \<and> a = (if is_str v then S t else N t)))
                 (process_metadata (rt ?w) (fst (extract_metadata ?w ''/vsis3/in/f.h5'' demo_state))) item
             \<and> table (snd ?up)
                 = table demo_state @ (if put_item ?w TABLE_NAME item = PutOk then [(TABLE_NAME, item)]
                              else []))"
    and iff: "puts \<noteq> [] \<longleftrightarrow>
          fst (extract_metadata ?w ''/vsis3/in/f.h5'' demo_state) \<noteq> []
          \<and> process_metadata (rt ?w) (fst (extract_metadata ?w ''/vsis3/in/f.h5'' demo_state)) \<noteq> []
          \<and> (\<forall>(k, v) \<in> set (process_metadata (rt ?w)
                 (fst (extract_metadata ?w ''/vsis3/in/f.h5'' demo_state))). str_ok (rt ?w) v)"
    by blast
  have "process_metadata (rt ?w) (fst (extract_metadata ?w ''/vsis3/in/f.h5'' demo_state)) \<noteq> []"
    unfolding runtime processed by simp
  with iff raw ok have "puts \<noteq> []" by blast
  with sent obtain item where puts: "puts = [PutItem TABLE_NAME item]"
    and tags: "list_all2
                 (\<lambda>(k, v) (k', a). k' = k
                    \<and> ((\<exists>t. a = S t) \<longleftrightarrow> is_str v)
                    \<and> (\<exists>t. py_str (rt ?w) v = Inr t \<and> a = (if is_str v then S t else N t)))
                 (process_metadata (rt ?w) (fst (extract_metadata ?w ''/vsis3/in/f.h5'' demo_state))) item"
    and t: "table (snd ?up)
                 = table demo_state @ (if put_item ?w TABLE_NAME item = PutOk then [(TABLE_NAME, item)]
                              else [])"
    by blast
  from tags have item: "item =
         [(''Unique_Id'', S ''X1''), (''Acquisition_Date'', S ''None''), (''Corner'', N ''7''),
          (''Extent'', N ''<repr>''), (''Gain'', N ''<repr>''), (''Orbit'', S ''5''),
          (''Calibrated'', S ''True'')]"
    unfolding runtime processed
    by (auto simp: list_all2_Cons1 seven demo_runtime_def)
  from c t show ?thesis
    unfolding puts item accepted start by (simp add: TABLE_NAME_def)
qed

subsection \<open>Subdataset discovery\<close>

lemma get_subdatasets_two_bands:
  "fst (get_subdatasets (demo_world two_band_listing [] []) demo_processor demo_state) =
     [(''VIS'', ''HDF5:'' @ [CHR 0x22] @ ''f.h5'' @ [CHR 0x22] @ ''://IMG_VIS''),
      (''SWIR'', ''HDF5:'' @ [CHR 0x22] @ ''f.h5'' @ [CHR 0x22] @ ''://IMG_SWIR'')]"
  by code_simp

lemma py_split_from_takeWhile:
  "\<exists>rest. py_split_from [c] cur s = (rev cur @ takeWhile (\<lambda>x. x \<noteq> c) s) # rest"
proof (induction s arbitrary: cur)
  case Nil
  then show ?case by simp
next
  case (Cons x s)
  show ?case
  proof (cases "x = c")
    case True
    then show ?thesis by simp
  next
    case False
    with Cons[of "x # cur"] show ?thesis by auto
  qed
qed

lemma py_split_from_absent:
  "c \<notin> set s \<Longrightarrow> py_split_from [c] cur s = [rev cur @ s]"
  by (induction s arbitrary: cur) auto

lemma py_split_from_first:
  "c \<notin> set a \<Longrightarrow> py_split_from [c] cur (a @ c # b) = (rev cur @ a) # py_split_from [c] [] b"
  by (induction a arbitrary: cur) auto

lemma split_single_equals:
  assumes "CHR ''='' \<notin> set name" and "CHR ''='' \<notin> set val"
  shows "index1 (py_split (name @ ''='' @ val) ''='') = Inr val"
  using assms py_split_from_first[of "CHR ''=''" name "[]" val]
  by (simp add: py_split_def py_split_from_absent)

lemma split_at_quote:
  "index0 (py_split rest [CHR 0x22]) = Inr (takeWhile (\<lambda>c. c \<noteq> CHR 0x22) rest)"
  using py_split_from_takeWhile[of "CHR 0x22" "[]" rest]
  by (auto simp: py_split_def)

lemma parse_line_single_equals:
  assumes "CHR ''='' \<notin> set name" and "CHR ''='' \<notin> set val"
    and "is_subdataset_line (name @ ''='' @ val)"
  shows "parse_line (name @ ''='' @ val) subdatasets =
           (case index1 (py_split (strip val) ''://IMG_'') of
              Inl e \<Rightarrow> Inl e
            | Inr rest \<Rightarrow>
                Inr (AList.update (takeWhile (\<lambda>c. c \<noteq> CHR 0x22) rest)
                       (strip_chars (strip val) [CHR 0x22]) subdatasets))"
proof -
  have field: "index1 (py_split (name @ ''='' @ val) ''='') = Inr val"
    by (rule split_single_equals[OF assms(1,2)])
  show ?thesis
    unfolding parse_line_def Let_def field split_at_quote using assms(3)
    by (cases "index1 (py_split (strip val) ''://IMG_'')") simp_all
qed

lemma get_subdatasets_of_stdout:
  assumes "spawn w [if exists s ''/usr/bin/gdalinfo'' then ''/usr/bin/gdalinfo''
                    else environ_get w ''LAMBDA_TASK_ROOT'' [] @ ''/miniconda3/bin/gdalinfo'',
                    input_path self] = Launched p"
    and "run_time p \<le> 600" and "returncode p = 0"
    and "text_of w (stdout p) = Some out" and "text_of w (stderr p) = Some err"
  shows "fst (get_subdatasets w self s) =
           (case parse_lines (splitlines out) [] of Inl e \<Rightarrow> [] | Inr d \<Rightarrow> d)"
  using assms
  by (auto simp: get_subdatasets_def run_command_def subprocess_run_def Let_def
           split: sum.splits)

text \<open>
  Claim C8 on the code. The two lines of the scenario give exactly the bands
  \<^verbatim>\<open>VIS\<close> and \<^verbatim>\<open>SWIR\<close> with the text after the equals sign as their paths
  (\<open>get_subdatasets_two_bands\<close>), and on every matching line with a single equals
  sign the path is the text after it and the band the text after the marker up to the
  next quote (\<open>parse_line_single_equals\<close>). But the access path is taken as the second piece of
  \<^verbatim>\<open>line.split('=')\<close>, which is the text after the equals sign only when the line
  has no further one. With an equals sign inside the file name the piece lacks the band
  marker, the second \<^verbatim>\<open>[1]\<close> raises and discovery returns the empty mapping;
  with one inside the dataset name the band identifier and the path are cut short.
\<close>

theorem get_subdatasets_second_equals_sign:
  "fst (get_subdatasets
          (demo_world (subdataset_line ''1'' ''/vsis3/in/year=2023/f.h5'' ''VIS'') [] [])
          demo_processor demo_state) = []
   \<and> fst (get_subdatasets
          (demo_world (subdataset_line ''1'' ''/vsis3/in/f.h5'' ''TIR=1'') [] [])
          demo_processor demo_state)
       = [(''TIR'', ''HDF5:'' @ [CHR 0x22] @ ''/vsis3/in/f.h5'' @ [CHR 0x22] @ ''://IMG_TIR'')]"
  by code_simp

subsection \<open>The entry points\<close>

lemma processor_init_region:
  "processor_init w path bucket workers = Inr p \<Longrightarrow>
   metadata_handler_init w (environ_get w ''AWS_DEFAULT_REGION'' ''ap-south-1'')
     = Inr (environ_get w ''AWS_DEFAULT_REGION'' ''ap-south-1'')"
  by (auto simp: processor_init_def metadata_handler_init_def Let_def split: if_splits)

lemma process_file_ok:
  assumes "index0 event = Inr (b, k)" and "environ w ''DESTINATION_BUCKET'' = Some d"
    and "processor_init w (b @ ''/'' @ k) d 10 = Inr p"
    and "fst (process w p s) = Inr results"
  shows "fst (process_file w event s) =
           (if results = []
            then \<lparr>statusCode = 500, body = Error (PlainException ''No output files generated'')\<rparr>
            else \<lparr>statusCode = 200,
                  body = Completed ''Processing completed successfully'' (map fst results)\<rparr>)"
proof -
  obtain s1 where "process w p s = (Inr results, s1)"
    using assms(4) by (cases "process w p s") simp
  with assms(1-3) show ?thesis
    by (simp add: process_file_def)
qed

lemma process_file_fault:
  assumes "\<not> (\<exists>b k d p results. index0 event = Inr (b, k)
                \<and> environ w ''DESTINATION_BUCKET'' = Some d
                \<and> processor_init w (b @ ''/'' @ k) d 10 = Inr p
                \<and> fst (process w p s) = Inr results)"
  shows "statusCode (fst (process_file w event s)) = 500
         \<and> (\<exists>e. body (fst (process_file w event s)) = Error e)"
proof (cases "index0 event")
  case (Inl e)
  then show ?thesis by (simp add: process_file_def)
next
  case (Inr bk)
  obtain b k where bk: "bk = (b, k)" by (cases bk)
  show ?thesis
  proof (cases "environ w ''DESTINATION_BUCKET''")
    case None
    with Inr bk show ?thesis by (simp add: process_file_def)
  next
    case (Some d)
    show ?thesis
    proof (cases "processor_init w (b @ ''/'' @ k) d 10")
      case (Inl e)
      with Inr bk Some show ?thesis by (simp add: process_file_def)
    next
      case init: (Inr p)
      obtain r s1 where pr: "process w p s = (r, s1)" by (cases "process w p s")
      show ?thesis
      proof (cases r)
        case (Inl e)
        with Inr bk Some init pr show ?thesis by (simp add: process_file_def)
      next
        case res: (Inr results)
        with pr have "fst (process w p s) = Inr results" by simp
        with assms Inr bk Some init have False by blast
        then show ?thesis ..
      qed
    qed
  qed
qed

lemma lambda_handler_ok:
  assumes "index0 event = Inr (b, k)"
    and "processor_init w (b @ ''/'' @ k) (environ_get w ''DESTINATION_BUCKET'' ''final-cog'') 5
           = Inr p"
    and "fst (process w p (snd (upload_metadata w (''/vsis3/'' @ b @ ''/'' @ k) s))) = Inr results"
  shows "fst (lambda_handler w event s) =
           \<lparr>statusCode = 200,
            body = MetadataAndFiles (fst (upload_metadata w (''/vsis3/'' @ b @ ''/'' @ k) s))
                     (map fst results)\<rparr>"
proof -
  let ?s1 = "snd (upload_metadata w (''/vsis3/'' @ b @ ''/'' @ k) s)"
  obtain s2 where "process w p ?s1 = (Inr results, s2)"
    using assms(3) by (cases "process w p ?s1") simp
  with assms(1,2) processor_init_region[OF assms(2)] show ?thesis
    by (simp add: lambda_handler_def split_beta Let_def)
qed

text \<open>
  Claim C3 on the code. Under \<^verbatim>\<open>process_file\<close> an empty result of the
  orchestrator is a failure: it raises \<^verbatim>\<open>No output files generated\<close> and the
  response is a 500 (\<open>process_file_ok\<close>). Under \<^verbatim>\<open>lambda_handler\<close> it
  is not: every invocation whose orchestrator returns answers with status 200 and the list of
  converted bands (\<open>lambda_handler_ok\<close>), also when that list is empty. In the
  invocation below two bands are discovered, both conversions fail, and
  \<^verbatim>\<open>lambda_handler\<close> answers 200 where \<^verbatim>\<open>process_file\<close> answers 500.
\<close>

theorem lambda_handler_empty_result_is_success:
  "processor_init (demo_world two_band_listing all_fail demo_metadata) ''in/f.h5'' ''final-cog'' 5
     = Inr demo_processor
   \<and> map fst (discovered (demo_world two_band_listing all_fail demo_metadata) demo_processor
               (snd (upload_metadata (demo_world two_band_listing all_fail demo_metadata)
                       ''/vsis3/in/f.h5'' demo_state))) = [''VIS'', ''SWIR'']
   \<and> fst (process (demo_world two_band_listing all_fail demo_metadata) demo_processor
            (snd (upload_metadata (demo_world two_band_listing all_fail demo_metadata)
                    ''/vsis3/in/f.h5'' demo_state))) = Inr []
   \<and> fst (lambda_handler (demo_world two_band_listing all_fail demo_metadata) [(''in'', ''f.h5'')]
            demo_state)
       = \<lparr>statusCode = 200, body = MetadataAndFiles True []\<rparr>
   \<and> fst (process_file (demo_world two_band_listing all_fail demo_metadata) [(''in'', ''f.h5'')]
            demo_state)
       = \<lparr>statusCode = 500, body = Error (PlainException ''No output files generated'')\<rparr>"
  by code_simp

subsection \<open>The calls of one invocation\<close>

lemma run_command_calls: "calls (snd (run_command w c t s)) = calls s @ [Spawn c]"
  by (simp add: run_command_def split_beta)

lemma extract_metadata_calls:
  "calls (snd (extract_metadata w path s)) = calls s @ [Spawn [''gdalinfo'', ''-json'', path]]"
  by (simp add: extract_metadata_def Let_def split_beta split: sum.splits option.splits)

lemma upload_metadata_calls:
  "\<exists>ps. calls (snd (upload_metadata w path s))
          = calls s @ Spawn [''gdalinfo'', ''-json'', path] # ps"
  using extract_metadata_calls[of w path s]
  by (auto simp: upload_metadata_def Let_def split_beta split: put_outcome.splits sum.splits)

lemma get_subdatasets_calls: "\<exists>ps. calls (snd (get_subdatasets w self s)) = calls s @ ps"
proof -
  let ?cmd = "[if exists s ''/usr/bin/gdalinfo'' then ''/usr/bin/gdalinfo''
               else environ_get w ''LAMBDA_TASK_ROOT'' [] @ ''/miniconda3/bin/gdalinfo'',
               input_path self]"
  obtain r s' where rc: "run_command w ?cmd 600 s = (r, s')"
    by (cases "run_command w ?cmd 600 s")
  with run_command_calls[of w ?cmd 600 s] have c: "calls s' = calls s @ [Spawn ?cmd]"
    by simp
  have "snd (get_subdatasets w self s) = s'"
    unfolding get_subdatasets_def Let_def rc
    by (simp split: sum.splits prod.splits)
  with c show ?thesis by blast
qed

lemma upload_file_calls:
  "calls (snd (upload_file w local_path bucket key s))
     = calls s @ [UploadFile local_path bucket key]"
  by (simp add: upload_file_def Let_def)

lemma convert_and_upload_calls:
  "\<exists>ps. calls (snd (convert_and_upload w self band path s)) = calls s @ ps"
proof -
  let ?cmd = "[if exists s ''/usr/bin/gdal_translate'' then ''/usr/bin/gdal_translate''
             else environ_get w ''LAMBDA_TASK_ROOT'' [] @ ''/miniconda3/bin/gdal_translate'',
             ''-of'', ''COG'',
             ''-co'', ''TILED=YES'',
             ''-co'', ''BLOCKXSIZE=256'',
             ''-co'', ''BLOCKYSIZE=256'',
             ''-co'', ''COMPRESS=DEFLATE'',
             ''-co'', ''NUM_THREADS=ALL_CPUS'',
             ''--config'', ''GDAL_CACHEMAX'', ''256'',
             path,
             temp_file_of band]"
  obtain r s1 where rc: "run_command w ?cmd 600 s = (r, s1)"
    by (cases "run_command w ?cmd 600 s")
  with run_command_calls[of w ?cmd 600 s] have c1: "calls s1 = calls s @ [Spawn ?cmd]"
    by simp
  let ?up = "upload_file w (temp_file_of band) (output_bucket self) (s3_key_of self band) s1"
  have c2: "calls (snd ?up) = calls s @ [Spawn ?cmd, UploadFile (temp_file_of band)
              (output_bucket self) (s3_key_of self band)]"
    by (simp add: upload_file_calls c1)
  have "snd (convert_and_upload w self band path s) = s1
        \<or> snd (convert_and_upload w self band path s) = snd ?up"
    unfolding convert_and_upload_def Let_def rc
    by (simp split: sum.splits prod.splits)
  with c1 c2 show ?thesis by auto
qed

lemma process_band_calls: "\<exists>ps. calls (snd (process_band w self bi s)) = calls s @ ps"
proof -
  obtain band path where bi: "bi = (band, path)" by (cases bi)
  obtain r s1 where cu: "convert_and_upload w self band path s = (r, s1)"
    by (cases "convert_and_upload w self band path s")
  obtain ps where ps: "calls s1 = calls s @ ps"
    using convert_and_upload_calls[of w self band path s] cu by auto
  have "calls (snd (process_band w self (band, path) s)) = calls s1
        \<or> calls (snd (process_band w self (band, path) s)) = calls s1 @ [Remove (temp_file_of band)]"
    unfolding process_band_def Let_def os_remove_def
    by (simp add: cu split: option.splits fkind.splits)
  with ps bi show ?thesis by auto
qed

lemma run_pool_calls: "\<exists>ps. calls (snd (run_pool w self xs s)) = calls s @ ps"
proof (induction xs arbitrary: s)
  case Nil
  then show ?case by simp
next
  case (Cons x xs)
  obtain band path where x: "x = (band, path)" by (cases x)
  obtain ps where ps: "calls (snd (process_band w self (band, path) s)) = calls s @ ps"
    using process_band_calls by blast
  obtain qs where qs: "calls (snd (run_pool w self xs (snd (process_band w self (band, path) s))))
                         = calls (snd (process_band w self (band, path) s)) @ qs"
    using Cons.IH by blast
  show ?case
    using ps qs by (simp add: x split_beta)
qed

lemma process_calls:
  "\<exists>ps. calls (snd (process w self s))
          = calls s @ Spawn [''gdalinfo'', ''-json'', input_path self] # ps"
proof -
  let ?s1 = "snd (upload_metadata w (input_path self) s)"
  let ?s2 = "snd (get_subdatasets w self ?s1)"
  obtain ps where ps: "calls ?s1 = calls s @ Spawn [''gdalinfo'', ''-json'', input_path self] # ps"
    using upload_metadata_calls by blast
  obtain qs where qs: "calls ?s2 = calls ?s1 @ qs"
    using get_subdatasets_calls by blast
  obtain rs where rs: "calls (snd (run_pool w self
                          (as_completed w (fst (get_subdatasets w self ?s1))) ?s2)) = calls ?s2 @ rs"
    using run_pool_calls by blast
  have "snd (process w self s) = ?s2
        \<or> snd (process w self s)
            = snd (run_pool w self (as_completed w (fst (get_subdatasets w self ?s1))) ?s2)"
    by (simp add: process_def split_beta Let_def)
  then show ?thesis
  proof
    assume "snd (process w self s) = ?s2"
    with ps qs show ?thesis by simp
  next
    assume "snd (process w self s)
            = snd (run_pool w self (as_completed w (fst (get_subdatasets w self ?s1))) ?s2)"
    with ps qs rs show ?thesis by simp
  qed
qed

lemma lambda_handler_extracts_twice:
  assumes "index0 event = Inr (b, k)"
    and "processor_init w (b @ ''/'' @ k) (environ_get w ''DESTINATION_BUCKET'' ''final-cog'') 5
           = Inr p"
  shows "\<exists>ps qs. calls (snd (lambda_handler w event s))
           = calls s @ Spawn [''gdalinfo'', ''-json'', ''/vsis3/'' @ b @ ''/'' @ k] # ps
               @ Spawn [''gdalinfo'', ''-json'', ''/vsis3/'' @ b @ ''/'' @ k] # qs"
proof -
  let ?path = "''/vsis3/'' @ b @ ''/'' @ k"
  let ?s1 = "snd (upload_metadata w ?path s)"
  have ip: "input_path p = ?path"
    using assms(2) by (auto simp: processor_init_def Let_def split: sum.splits if_splits)
  note reg = processor_init_region[OF assms(2)]
  obtain ps where ps: "calls ?s1 = calls s @ Spawn [''gdalinfo'', ''-json'', ?path] # ps"
    using upload_metadata_calls by blast
  obtain qs where qs: "calls (snd (process w p ?s1))
                         = calls ?s1 @ Spawn [''gdalinfo'', ''-json'', ?path] # qs"
    using process_calls[of w p ?s1] ip by auto
  obtain r s2 where pr: "process w p ?s1 = (r, s2)"
    by (cases "process w p ?s1")
  have "snd (lambda_handler w event s) = s2"
    using assms reg pr by (cases r) (simp_all add: lambda_handler_def split_beta Let_def)
  with pr have "snd (lambda_handler w event s) = snd (process w p ?s1)"
    by simp
  with ps qs have "calls (snd (lambda_handler w event s))
           = calls s @ Spawn [''gdalinfo'', ''-json'', ?path] # ps
               @ Spawn [''gdalinfo'', ''-json'', ?path] # qs"
    by simp
  then show ?thesis by blast
qed

text \<open>
  Claim C4 on the code. Under \<^verbatim>\<open>process_file\<close> one invocation makes one metadata
  extraction and one write before discovery starts. Under \<^verbatim>\<open>lambda_handler\<close> it
  makes two of each: the handler calls \<^verbatim>\<open>upload_metadata\<close> itself and then
  \<^verbatim>\<open>process\<close> calls it again, for every event and every world that let the
  handler reach the orchestrator (\<open>lambda_handler_extracts_twice\<close>). In both cases
  they precede discovery and conversion.
\<close>

theorem lambda_handler_runs_metadata_twice:
  "take 5 (calls (snd (lambda_handler (demo_world two_band_listing [] demo_metadata)
                         [(''in'', ''f.h5'')] demo_state)))
     = [Spawn [''gdalinfo'', ''-json'', ''/vsis3/in/f.h5''],
        PutItem ''Files'' demo_item,
        Spawn [''gdalinfo'', ''-json'', ''/vsis3/in/f.h5''],
        PutItem ''Files'' demo_item,
        Spawn [''/usr/bin/gdalinfo'', ''/vsis3/in/f.h5'']]
   \<and> table (snd (lambda_handler (demo_world two_band_listing [] demo_metadata)
                    [(''in'', ''f.h5'')] demo_state))
       = [(''Files'', demo_item), (''Files'', demo_item)]
   \<and> take 3 (calls (snd (process_file (demo_world two_band_listing [] demo_metadata)
                           [(''in'', ''f.h5'')] demo_state)))
       = [Spawn [''gdalinfo'', ''-json'', ''/vsis3/in/f.h5''],
          PutItem ''Files'' demo_item,
          Spawn [''/usr/bin/gdalinfo'', ''/vsis3/in/f.h5'']]"
  by code_simp

end
